theory Spec2Isabelle
  imports Main "HOL-Library.Sublist"
begin

section \<open>Python values: exceptions, outcomes, observable calls\<close>

text \<open>
  The producer script \<^verbatim>\<open>producers/kafka_producer_strickland.py\<close> is modelled as
  pure functions that return, next to their result, the list of calls they make on the
  outside world (logger, environment, broker client, timer), in program order.

  An exception is a value. The script distinguishes three classes: \<open>KeyboardInterrupt\<close>
  and \<open>SystemExit\<close>, which are not subclasses of \<open>Exception\<close>, and \<open>Exception\<close> with
  its subclasses, carried here with the class name and the text of \<open>str(e)\<close>.
\<close>

datatype pyexn = KeyboardInterrupt | SystemExit int | Exception string string

datatype level = INFO | WARNING | ERROR

type_synonym producer = nat

datatype event =
    Log level string
  | LoadDotenv
  | VerifyServices
  | GetEnv string
  | CreateKafkaProducer
  | CreateKafkaTopic string
  | Send producer string string
  | Sleep int
  | Close producer

text \<open>
  A call either returns, raises, or (for the emission loop, which has no exit condition)
  is still executing when the fuel given to the model is used up.
\<close>

datatype 'a outcome = Returns 'a | Raises pyexn | Running

section \<open>Built-ins of the language used by the script\<close>

text \<open>
  Strings are byte strings here: a character of the source outside ASCII is its UTF-8
  encoding. The only such character of the script is the typographic apostrophe U+2019.
\<close>

definition apostrophe :: string where
  "apostrophe = [CHR 0xE2, CHR 0x80, CHR 0x99]"

definition squote :: string where
  "squote = [CHR 0x27]"

text \<open>\<open>str(n)\<close> for an integer, as the f-strings of the script format it.\<close>

fun str_nat :: "nat \<Rightarrow> string" where
  "str_nat n = (if n < 10 then [''0123456789'' ! n]
                else str_nat (n div 10) @ [''0123456789'' ! (n mod 10)])"

declare str_nat.simps [simp del]

definition str_int :: "int \<Rightarrow> string" where
  "str_int i = (if i < 0 then CHR ''-'' # str_nat (nat (- i)) else str_nat (nat i))"

text \<open>
  \<open>int(s)\<close> for a string is a built-in of the interpreter: what it answers depends on
  the interpreter's tables of Unicode digits and spaces and on its limit on the number of
  digits. It is therefore a parameter of the functions below, of type \<open>int_builtin\<close>: on
  a string it returns an integer (\<open>Inr\<close>) or raises \<open>ValueError\<close> with a message
  (\<open>Inl\<close>).
\<close>

type_synonym int_builtin = "string \<Rightarrow> string + int"

definition call_int :: "int_builtin \<Rightarrow> string \<Rightarrow> pyexn + int" where
  "call_int int_says s =
     (case int_says s of Inl msg \<Rightarrow> Inl (Exception ''ValueError'' msg) | Inr n \<Rightarrow> Inr n)"

text \<open>
  \<open>time.sleep(secs)\<close> for an integer converts the seconds to nanoseconds in a signed
  64-bit number and raises \<open>OverflowError\<close> if they do not fit, then refuses a negative
  argument, both before it waits; otherwise the wait ends as the outside world decides
  (it returns, or a signal interrupts it).
\<close>

definition time_sleep :: "int \<Rightarrow> pyexn option \<Rightarrow> pyexn option" where
  "time_sleep secs world_says =
     (if secs < - 9223372036 \<or> 9223372036 < secs
      then Some (Exception ''OverflowError'' ''timestamp too large to convert to C _PyTime_t'')
      else if secs < 0
      then Some (Exception ''ValueError'' ''sleep length must be non-negative'')
      else world_says)"

text \<open>
  The process environment is a dictionary. \<open>load_dotenv()\<close> adds the entries of the
  \<^verbatim>\<open>.env\<close> file for the names that are not set yet (it does not override).
\<close>

type_synonym environ = "string \<rightharpoonup> string"

definition load_dotenv :: "environ \<Rightarrow> environ \<Rightarrow> environ" where
  "load_dotenv file env = (\<lambda>k. case env k of Some v \<Rightarrow> Some v | None \<Rightarrow> file k)"

section \<open>Getter functions for the environment variables\<close>

definition get_kafka_topic :: "environ \<Rightarrow> string \<times> event list" where
  "get_kafka_topic env =
     (let topic = (case env ''KAFKA_TOPIC'' of Some v \<Rightarrow> v | None \<Rightarrow> ''buzz_topic'')
      in (topic, [GetEnv ''KAFKA_TOPIC'', Log INFO (''Kafka topic: '' @ topic)]))"

text \<open>
  The default handed to \<open>os.getenv\<close> is the integer 10, and \<open>int(10)\<close> is 10; a value
  that is set is a string and goes through \<open>int\<close>. A \<open>ValueError\<close> leaves the function
  before its log line.
\<close>

definition get_message_interval :: "int_builtin \<Rightarrow> environ \<Rightarrow> (pyexn + int) \<times> event list" where
  "get_message_interval int_says env =
     (case (case env ''MESSAGE_INTERVAL_SECONDS'' of
              None \<Rightarrow> Inr 10
            | Some s \<Rightarrow> call_int int_says s) of
        Inl e \<Rightarrow> (Inl e, [GetEnv ''MESSAGE_INTERVAL_SECONDS''])
      | Inr interval \<Rightarrow>
          (Inr interval,
           [GetEnv ''MESSAGE_INTERVAL_SECONDS'',
            Log INFO (''Message interval: '' @ str_int interval @ '' seconds'')]))"

section \<open>The message generator\<close>

definition string_list :: "string list" where
  "string_list = [
    ''This doesn'' @ apostrophe @ ''t make any sense'',
    ''I don'' @ apostrophe @ ''t get it'',
    ''This is so confusing'',
    ''I give up'',
    ''I can'' @ apostrophe @ ''t do this'',
    ''Wait, what just happened?'',
    ''I thought I understood, but I don'' @ apostrophe @ ''t'',
    ''This problem is impossible'',
    ''Why is this so hard?'',
    ''Nothing is clicking'',
    ''I need help'',
    ''Can you explain this again?'',
    ''I'' @ apostrophe @ ''m totally lost'',
    ''This is frustrating'',
    ''My brain hurts'',
    ''I'' @ apostrophe @ ''m stuck'',
    ''I don'' @ apostrophe @ ''t know where to start'',
    ''I keep messing up'',
    ''I hate this problem'',
    ''I'' @ apostrophe @ ''ve tried everything'',
    ''This is taking forever'',
    ''Why can'' @ apostrophe @ ''t I figure this out?'',
    ''I'' @ apostrophe @ ''m going in circles'',
    ''I keep getting the wrong answer'',
    ''This is the worst'',
    ''I don'' @ apostrophe @ ''t like math'',
    ''I can'' @ apostrophe @ ''t focus'',
    ''I wish I was done'',
    ''This is boring'',
    ''How many problems are left?'',
    ''Why do we even need to learn this?'',
    ''This is dragging on'',
    ''I'' @ apostrophe @ ''d rather be doing anything else'',
    ''This is so repetitive'',
    ''I'' @ apostrophe @ ''m tired of this'',
    ''Can we just stop?'',
    ''I'' @ apostrophe @ ''m over it'',
    ''Does this even matter?'',
    ''This is too much'',
    ''I can'' @ apostrophe @ ''t believe this is homework'',
    ''I'' @ apostrophe @ ''ll never use this in real life'',
    ''This was tough at first but now I think I'' @ apostrophe @ ''ve got it'',
    ''Oh! Now it makes sense'',
    ''Wait, I get it now'',
    ''This is actually kind of fun'',
    ''I solved it!'',
    ''I can'' @ apostrophe @ ''t believe I did it!'',
    ''That wasn'' @ apostrophe @ ''t so bad'',
    ''Yes! I got it right'',
    ''I'' @ apostrophe @ ''m on a roll'',
    ''This is clicking now'',
    ''This isn'' @ apostrophe @ ''t as hard as I thought'',
    ''Okay, I think I understand'',
    ''I'' @ apostrophe @ ''m getting the hang of this'',
    ''I can do this!'',
    ''I finally figured it out'',
    ''I feel smart'',
    ''This problem makes sense now'',
    ''I knew I could do it'',
    ''This is easier than it looked'',
    ''I like this kind of problem'',
    ''I think I'' @ apostrophe @ ''m improving'',
    ''I got the same answer twice, so it must be right'',
    ''Yes, that worked!'',
    ''This step was the key'',
    ''It'' @ apostrophe @ ''s actually satisfying when it works'',
    ''This is kind of cool'',
    ''I'' @ apostrophe @ ''m proud of myself'',
    ''I actually like this problem'',
    ''This isn'' @ apostrophe @ ''t so scary anymore'',
    ''Okay, I can explain it to someone else now'',
    ''I'' @ apostrophe @ ''m in the zone'',
    ''I'' @ apostrophe @ ''m working faster now'',
    ''I can focus right now'',
    ''I like figuring this out'',
    ''This is keeping me busy'',
    ''I feel productive'',
    ''I'' @ apostrophe @ ''m solving these one after another'',
    ''I just need to keep going'',
    ''I'' @ apostrophe @ ''m almost finished'',
    ''I can see the pattern now'',
    ''I'' @ apostrophe @ ''m starting to enjoy this'',
    ''I'' @ apostrophe @ ''m determined to finish'',
    ''This is actually interesting'',
    ''I just need to double-check my steps'',
    ''I'' @ apostrophe @ ''m noticing my mistakes and fixing them'',
    ''This problem is like a puzzle'',
    ''I just found the trick'',
    ''This part is easy'',
    ''I see what the teacher meant now'',
    ''I'' @ apostrophe @ ''m faster than I was before'',
    ''I'' @ apostrophe @ ''m focused right now'',
    ''This feels like progress'',
    ''I'' @ apostrophe @ ''m learning as I go'',
    ''This is kind of satisfying'',
    ''I know what to do next'',
    ''I just need to be careful'',
    ''I'' @ apostrophe @ ''ve got momentum'',
    ''I can finish strong'',
    ''This feels good'',
    ''I actually get it now'',
    ''I'' @ apostrophe @ ''m proud of my work'',
    ''I can'' @ apostrophe @ ''t wait to check my answer''
  ]"

text \<open>
  The four calls of one pass through the body of the \<open>for\<close> loop. The outside world
  decides for each call of each iteration whether it returns or raises (a failure of the
  broker client, or an interrupt delivered while the call runs): \<open>w k c\<close> is the
  exception raised by call \<open>c\<close> of iteration \<open>k\<close>, iterations counted from 0 over the
  whole run of the loop, or \<open>None\<close>. A call is recorded when it is made.
\<close>

datatype loop_call = LogGenerated | SendCall | LogSent | SleepCall

type_synonym loop_world = "nat \<Rightarrow> loop_call \<Rightarrow> pyexn option"

definition loop_body ::
  "loop_world \<Rightarrow> nat \<Rightarrow> producer \<Rightarrow> string \<Rightarrow> int \<Rightarrow> string \<Rightarrow> pyexn option \<times> event list"
where
  "loop_body w k producer topic interval_secs message =
     (let e1 = Log INFO (''Generated buzz: '' @ message);
          e2 = Send producer topic message;
          e3 = Log INFO (''Sent message to topic '' @ squote @ topic @ squote @ '': '' @ message);
          e4 = Sleep interval_secs
      in case w k LogGenerated of Some x \<Rightarrow> (Some x, [e1]) | None \<Rightarrow>
        (case w k SendCall of Some x \<Rightarrow> (Some x, [e1, e2]) | None \<Rightarrow>
        (case w k LogSent of Some x \<Rightarrow> (Some x, [e1, e2, e3]) | None \<Rightarrow>
        (case time_sleep interval_secs (w k SleepCall) of
           Some x \<Rightarrow> (Some x, [e1, e2, e3, e4])
         | None \<Rightarrow> (None, [e1, e2, e3, e4])))))"

text \<open>\<open>for message in string_list: ...\<close>, started at iteration number \<open>k\<close>.\<close>

fun for_loop ::
  "loop_world \<Rightarrow> nat \<Rightarrow> producer \<Rightarrow> string \<Rightarrow> int \<Rightarrow> string list \<Rightarrow> pyexn option \<times> event list"
where
  "for_loop w k producer topic interval_secs [] = (None, [])"
| "for_loop w k producer topic interval_secs (message # rest) =
     (case loop_body w k producer topic interval_secs message of
        (Some x, evs) \<Rightarrow> (Some x, evs)
      | (None, evs) \<Rightarrow>
          (case for_loop w (Suc k) producer topic interval_secs rest of
             (r, evs') \<Rightarrow> (r, evs @ evs')))"

text \<open>
  \<open>while True: for ...\<close>. The loop has no exit of its own, so the model takes fuel: the
  number of passes of the \<open>while\<close> loop it may start. The result \<open>None\<close> means that all
  these passes completed and the loop is still running; \<open>Some x\<close> that \<open>x\<close> was raised.
\<close>

fun while_true ::
  "string list \<Rightarrow> loop_world \<Rightarrow> nat \<Rightarrow> nat \<Rightarrow> producer \<Rightarrow> string \<Rightarrow> int \<Rightarrow> pyexn option \<times> event list"
where
  "while_true msgs w k 0 producer topic interval_secs = (None, [])"
| "while_true msgs w k (Suc fuel) producer topic interval_secs =
     (case for_loop w k producer topic interval_secs msgs of
        (Some x, evs) \<Rightarrow> (Some x, evs)
      | (None, evs) \<Rightarrow>
          (case while_true msgs w (k + length msgs) fuel producer topic interval_secs of
             (r, evs') \<Rightarrow> (r, evs @ evs')))"

text \<open>
  The \<open>try\<close> statement around the loop. \<open>KeyboardInterrupt\<close> and \<open>Exception\<close> are handled
  by a log line; any other exception stays pending. The \<open>finally\<close> clause closes the
  producer and logs; if \<open>close\<close> raises, that exception replaces the pending one and the
  last log line is not reached. \<open>close_says\<close> is what the outside world answers to
  \<open>producer.close()\<close>. The message list is a parameter of this function so that the
  loop can be run on other lists.
\<close>

definition generate_messages_on ::
  "string list \<Rightarrow> loop_world \<Rightarrow> pyexn option \<Rightarrow> nat \<Rightarrow> producer \<Rightarrow> string \<Rightarrow> int
     \<Rightarrow> unit outcome \<times> event list"
where
  "generate_messages_on msgs w close_says fuel producer topic interval_secs =
     (case while_true msgs w 0 fuel producer topic interval_secs of
        (None, evs) \<Rightarrow> (Running, evs)
      | (Some x, evs) \<Rightarrow>
          (let handler = (case x of
                            KeyboardInterrupt \<Rightarrow> [Log WARNING ''Producer interrupted by user.'']
                          | Exception c msg \<Rightarrow> [Log ERROR (''Error in message generation: '' @ msg)]
                          | SystemExit n \<Rightarrow> []);
               pending = (case x of SystemExit n \<Rightarrow> Raises x | _ \<Rightarrow> Returns ())
           in case close_says of
                Some y \<Rightarrow> (Raises y, evs @ handler @ [Close producer])
              | None \<Rightarrow>
                  (pending, evs @ handler @ [Close producer, Log INFO ''Kafka producer closed.''])))"

definition generate_messages ::
  "loop_world \<Rightarrow> pyexn option \<Rightarrow> nat \<Rightarrow> producer \<Rightarrow> string \<Rightarrow> int \<Rightarrow> unit outcome \<times> event list"
where
  "generate_messages = generate_messages_on string_list"

section \<open>The main function\<close>

text \<open>
  The outside world of one run of the script: the environment and the \<^verbatim>\<open>.env\<close> file,
  the built-in \<open>int\<close> of the interpreter, the answers of the three helpers imported from
  \<^verbatim>\<open>utils.utils_producer\<close> (whose code is not part of the file verified here, so their
  results are parameters: a helper returns or raises, and \<open>create_kafka_producer\<close>
  returns a producer or \<open>None\<close>), and the answers of the broker client and the timer
  inside the loop.
\<close>

record world =
  environ :: environ
  dotenv_file :: environ
  int_says :: int_builtin
  verify_services_says :: "pyexn option"
  create_kafka_producer_says :: "pyexn + producer option"
  create_kafka_topic_says :: "string \<Rightarrow> pyexn option"
  loop_says :: loop_world
  close_says :: "pyexn option"

definition main :: "nat \<Rightarrow> world \<Rightarrow> unit outcome \<times> event list" where
  "main fuel w =
     (let ev0 = [Log INFO ''START producer.'',
                 Log INFO ''Loading environment variables from .env file...'',
                 LoadDotenv, VerifyServices];
          env = load_dotenv (dotenv_file w) (environ w)
      in case verify_services_says w of Some x \<Rightarrow> (Raises x, ev0) | None \<Rightarrow>
        (case get_kafka_topic env of (topic, ev1) \<Rightarrow>
        (case get_message_interval (int_says w) env of
           (Inl x, ev2) \<Rightarrow> (Raises x, ev0 @ ev1 @ ev2)
         | (Inr interval_secs, ev2) \<Rightarrow>
        (case create_kafka_producer_says w of
           Inl x \<Rightarrow> (Raises x, ev0 @ ev1 @ ev2 @ [CreateKafkaProducer])
         | Inr None \<Rightarrow>
             (Raises (SystemExit 3),
              ev0 @ ev1 @ ev2 @
              [CreateKafkaProducer, Log ERROR ''Failed to create Kafka producer. Exiting...''])
         | Inr (Some producer) \<Rightarrow>
        (case create_kafka_topic_says w topic of
           Some (Exception c msg) \<Rightarrow>
             (Raises (SystemExit 1),
              ev0 @ ev1 @ ev2 @
              [CreateKafkaProducer, CreateKafkaTopic topic,
               Log ERROR (''Failed to create or verify topic '' @ squote @ topic @ squote
                          @ '': '' @ msg)])
         | Some x \<Rightarrow>
             (Raises x, ev0 @ ev1 @ ev2 @ [CreateKafkaProducer, CreateKafkaTopic topic])
         | None \<Rightarrow>
             (let ev3 = [CreateKafkaProducer, CreateKafkaTopic topic,
                         Log INFO (''Kafka topic '' @ squote @ topic @ squote @ '' is ready.''),
                         Log INFO (''Starting message production to topic '' @ squote @ topic
                                   @ squote @ ''...'')]
              in case generate_messages (loop_says w) (close_says w) fuel producer topic
                        interval_secs of
                   (Returns u, ev4) \<Rightarrow>
                     (Returns (), ev0 @ ev1 @ ev2 @ ev3 @ ev4 @ [Log INFO ''END producer.''])
                 | (r, ev4) \<Rightarrow> (r, ev0 @ ev1 @ ev2 @ ev3 @ ev4)))))))"

text \<open>
  The script runs \<open>main()\<close> at top level with no handler around it: \<open>SystemExit\<close> ends
  the process with its code, any other exception ends it with a traceback, and a return
  of \<open>main\<close> ends it with code 0.
\<close>

datatype process_end = Exited int | Traceback pyexn | NotEnded

definition run_script :: "nat \<Rightarrow> world \<Rightarrow> process_end \<times> event list" where
  "run_script fuel w =
     (case main fuel w of
        (Returns u, evs) \<Rightarrow> (Exited 0, evs)
      | (Raises (SystemExit n), evs) \<Rightarrow> (Exited n, evs)
      | (Raises x, evs) \<Rightarrow> (Traceback x, evs)
      | (Running, evs) \<Rightarrow> (NotEnded, evs))"

section \<open>Observations on a trace\<close>

text \<open>
  The functions below are not part of the script: they read a trace of calls, or describe
  the trace that a run is expected to leave, so that properties of the script can be
  stated.
\<close>

text \<open>The values handed to \<open>producer.send\<close>, in the order of the calls.\<close>

fun sent_of :: "event \<Rightarrow> string list" where
  "sent_of (Send producer topic message) = [message]"
| "sent_of e = []"

definition sent_values :: "event list \<Rightarrow> string list" where
  "sent_values evs = concat (map sent_of evs)"

fun is_log :: "event \<Rightarrow> bool" where
  "is_log (Log l s) = True"
| "is_log e = False"

fun is_close :: "event \<Rightarrow> bool" where
  "is_close (Close producer) = True"
| "is_close e = False"

fun is_send :: "event \<Rightarrow> bool" where
  "is_send (Send producer topic message) = True"
| "is_send e = False"

text \<open>The calls of one complete pass through the body of the \<open>for\<close> loop.\<close>

definition iteration_calls :: "producer \<Rightarrow> string \<Rightarrow> int \<Rightarrow> string \<Rightarrow> event list" where
  "iteration_calls producer topic interval_secs message =
     [Log INFO (''Generated buzz: '' @ message),
      Send producer topic message,
      Log INFO (''Sent message to topic '' @ squote @ topic @ squote @ '': '' @ message),
      Sleep interval_secs]"

text \<open>
  The position of a call in the body (how many calls of the iteration have been made
  once it is made), and what a call of iteration \<open>k\<close> does: what the world says, but for
  \<open>time.sleep\<close>, which first checks its argument.
\<close>

fun call_index :: "loop_call \<Rightarrow> nat" where
  "call_index LogGenerated = 1"
| "call_index SendCall = 2"
| "call_index LogSent = 3"
| "call_index SleepCall = 4"

definition call_says :: "loop_world \<Rightarrow> int \<Rightarrow> nat \<Rightarrow> loop_call \<Rightarrow> pyexn option" where
  "call_says w interval_secs k c =
     (if c = SleepCall then time_sleep interval_secs (w k SleepCall) else w k c)"

text \<open>The list repeated \<open>n\<close> times: the messages of \<open>n\<close> passes of the \<open>while\<close> loop.\<close>

definition cycle :: "nat \<Rightarrow> 'a list \<Rightarrow> 'a list" where
  "cycle n xs = concat (replicate n xs)"

text \<open>A world in which no call of the loop ever raises.\<close>

definition quiet :: loop_world where
  "quiet k c = None"

text \<open>A world in which call \<open>c\<close> of iteration \<open>k\<close> raises \<open>x\<close> and every other call returns.\<close>

definition raise_at :: "nat \<Rightarrow> loop_call \<Rightarrow> pyexn \<Rightarrow> loop_world" where
  "raise_at k c x = (\<lambda>j d. if j = k \<and> d = c then Some x else None)"

text \<open>The calls on the broker client and the timer: the trace without its log lines.\<close>

definition non_log_calls :: "event list \<Rightarrow> event list" where
  "non_log_calls evs = filter (\<lambda>e. \<not> is_log e) evs"

definition send_then_sleep :: "producer \<Rightarrow> string \<Rightarrow> int \<Rightarrow> string \<Rightarrow> event list" where
  "send_then_sleep producer topic interval_secs message =
     [Send producer topic message, Sleep interval_secs]"

fun is_getenv :: "event \<Rightarrow> bool" where
  "is_getenv (GetEnv name) = True"
| "is_getenv e = False"

fun is_verify :: "event \<Rightarrow> bool" where
  "is_verify VerifyServices = True"
| "is_verify e = False"

fun is_create_producer :: "event \<Rightarrow> bool" where
  "is_create_producer CreateKafkaProducer = True"
| "is_create_producer e = False"

fun is_create_topic :: "event \<Rightarrow> bool" where
  "is_create_topic (CreateKafkaTopic topic) = True"
| "is_create_topic e = False"

text \<open>
  The position in a trace of the first call of a kind (the length of the trace if there is
  none), and the order of calls that the specification asks of \<open>main\<close>: a configuration
  variable is read before \<open>verify_services\<close> is called.
\<close>

definition first_index :: "(event \<Rightarrow> bool) \<Rightarrow> event list \<Rightarrow> nat" where
  "first_index P evs = length (takeWhile (\<lambda>e. \<not> P e) evs)"

definition resolves_config_before_verifying :: "event list \<Rightarrow> bool" where
  "resolves_config_before_verifying evs = (first_index is_getenv evs < first_index is_verify evs)"

text \<open>The first four calls of \<open>main\<close>.\<close>

definition startup_calls :: "event list" where
  "startup_calls = [Log INFO ''START producer.'',
                    Log INFO ''Loading environment variables from .env file...'',
                    LoadDotenv, VerifyServices]"

text \<open>
  A sample of the built-in for the worlds below: what \<open>int(s)\<close> of CPython 3.11 with its
  default settings answers on a string of ASCII characters. Leading whitespace and one
  sign are dropped; then come decimal digits, where a single underscore may stand
  between two digits; more than 4300 digits are refused; trailing whitespace is dropped
  and nothing else may follow. The message of an invalid literal shows at most 200
  characters of \<open>repr(s)\<close>. (On other strings the built-in consults its Unicode tables,
  which this sample does not have; the worlds below hand it ASCII strings only.)
\<close>

definition py_isspace :: "char \<Rightarrow> bool" where
  "py_isspace c = (c \<in> set [CHR 0x09, CHR 0x0A, CHR 0x0B, CHR 0x0C, CHR 0x0D, CHR 0x20])"

definition py_isdigit :: "char \<Rightarrow> bool" where
  "py_isdigit c = (c \<in> set ''0123456789'')"

definition digit_val :: "char \<Rightarrow> nat" where
  "digit_val c = of_char c - 48"

definition digit_or_underscore :: "char \<Rightarrow> bool" where
  "digit_or_underscore c = (py_isdigit c \<or> c = CHR ''_'')"

fun underscores_ok :: "string \<Rightarrow> bool" where
  "underscores_ok [] = False"
| "underscores_ok [c] = py_isdigit c"
| "underscores_ok (c # d # ds) =
     (py_isdigit c \<and> (if d = CHR ''_'' then underscores_ok ds else underscores_ok (d # ds)))"

definition py_hex2 :: "char \<Rightarrow> string" where
  "py_hex2 c = [''0123456789abcdef'' ! (of_char c div 16), ''0123456789abcdef'' ! (of_char c mod 16)]"

definition py_repr_char :: "char \<Rightarrow> char \<Rightarrow> string" where
  "py_repr_char q c =
     (if c = q \<or> c = CHR 0x5C then [CHR 0x5C, c]
      else if c = CHR 0x09 then [CHR 0x5C, CHR ''t'']
      else if c = CHR 0x0A then [CHR 0x5C, CHR ''n'']
      else if c = CHR 0x0D then [CHR 0x5C, CHR ''r'']
      else if (of_char c :: nat) < 32 \<or> c = CHR 0x7F then [CHR 0x5C, CHR ''x''] @ py_hex2 c
      else [c])"

definition py_repr :: "string \<Rightarrow> string" where
  "py_repr s =
     (let q = (if CHR 0x27 \<in> set s \<and> CHR 0x22 \<notin> set s then CHR 0x22 else CHR 0x27)
      in q # concat (map (py_repr_char q) s) @ [q])"

definition ascii_int :: int_builtin where
  "ascii_int s =
     (let t = dropWhile py_isspace s;
          negative = (case t of [] \<Rightarrow> False | c # cs \<Rightarrow> c = CHR ''-'');
          body = (case t of [] \<Rightarrow> [] | c # cs \<Rightarrow> if c = CHR ''-'' \<or> c = CHR ''+'' then cs else t);
          run = takeWhile digit_or_underscore body;
          rest = dropWhile digit_or_underscore body;
          digits = filter py_isdigit run;
          v = foldl (\<lambda>a c. 10 * a + int (digit_val c)) (0 :: int) digits;
          invalid = Inl (''invalid literal for int() with base 10: '' @ take 200 (py_repr s))
      in if \<not> underscores_ok run then invalid
         else if 4300 < length digits
         then Inl (''Exceeds the limit (4300 digits) for integer string conversion: value has ''
                   @ str_nat (length digits)
                   @ '' digits; use sys.set_int_max_str_digits() to increase the limit'')
         else if dropWhile py_isspace rest \<noteq> [] then invalid
         else Inr (if negative then - v else v))"

text \<open>Worlds on which the script is run below.\<close>

definition ok_world :: world where
  "ok_world = \<lparr>environ = Map.empty, dotenv_file = Map.empty, int_says = ascii_int,
               verify_services_says = None,
               create_kafka_producer_says = Inr (Some 0),
               create_kafka_topic_says = (\<lambda>topic. None),
               loop_says = quiet, close_says = None\<rparr>"

definition no_producer_world :: world where
  "no_producer_world = ok_world\<lparr>create_kafka_producer_says := Inr None\<rparr>"

definition topic_fails_world :: world where
  "topic_fails_world =
     ok_world\<lparr>create_kafka_topic_says := (\<lambda>topic. Some (Exception ''KafkaError'' ''no brokers''))\<rparr>"

definition bad_interval_world :: world where
  "bad_interval_world = ok_world\<lparr>environ := [''MESSAGE_INTERVAL_SECONDS'' \<mapsto> ''abc'']\<rparr>"

definition negative_interval_world :: world where
  "negative_interval_world = ok_world\<lparr>environ := [''MESSAGE_INTERVAL_SECONDS'' \<mapsto> ''-5'']\<rparr>"

definition verify_fails_world :: world where
  "verify_fails_world = ok_world\<lparr>verify_services_says := Some (SystemExit 2)\<rparr>"

section \<open>The loop as one traversal of the repeated list\<close>

lemma sent_values_append [simp]: "sent_values (xs @ ys) = sent_values xs @ sent_values ys"
  by (simp add: sent_values_def)

lemma sent_values_Nil [simp]: "sent_values [] = []"
  by (simp add: sent_values_def)

lemma sent_values_Cons [simp]: "sent_values (e # evs) = sent_of e @ sent_values evs"
  by (simp add: sent_values_def)

lemma length_cycle [simp]: "length (cycle n xs) = n * length xs"
  by (induction n) (simp_all add: cycle_def)

lemma cycle_Suc: "cycle (Suc n) xs = xs @ cycle n xs"
  by (simp add: cycle_def)

lemma cycle_0 [simp]: "cycle 0 xs = []"
  by (simp add: cycle_def)

lemma cycle_nth: "n < fuel * length xs \<Longrightarrow> cycle fuel xs ! n = xs ! (n mod length xs)"
proof (induction fuel arbitrary: n)
  case 0
  then show ?case by simp
next
  case (Suc fuel)
  show ?case
  proof (cases "n < length xs")
    case True
    then show ?thesis by (simp add: cycle_Suc nth_append)
  next
    case False
    then have "n - length xs < fuel * length xs" using Suc.prems by simp
    then have "cycle fuel xs ! (n - length xs) = xs ! ((n - length xs) mod length xs)"
      by (rule Suc.IH)
    with False show ?thesis by (simp add: cycle_Suc nth_append le_mod_geq)
  qed
qed

lemma call_says_cases:
  "call_says w i k LogGenerated = w k LogGenerated"
  "call_says w i k SendCall = w k SendCall"
  "call_says w i k LogSent = w k LogSent"
  "call_says w i k SleepCall = time_sleep i (w k SleepCall)"
  by (simp_all add: call_says_def)

lemma loop_body_ok:
  assumes "\<forall>c. call_says w i k c = None"
  shows "loop_body w k p t i m = (None, iteration_calls p t i m)"
proof -
  have "w k LogGenerated = None" "w k SendCall = None" "w k LogSent = None"
       "time_sleep i (w k SleepCall) = None"
    using assms call_says_cases [of w i k] by metis+
  then show ?thesis by (simp add: loop_body_def iteration_calls_def)
qed

lemma loop_body_fails:
  assumes "call_says w i k c = Some x"
      and "\<forall>c'. call_index c' < call_index c \<longrightarrow> call_says w i k c' = None"
  shows "loop_body w k p t i m = (Some x, take (call_index c) (iteration_calls p t i m))"
proof (cases c)
  case LogGenerated
  with assms show ?thesis by (simp add: loop_body_def iteration_calls_def call_says_def)
next
  case SendCall
  moreover have "call_says w i k LogGenerated = None" using assms(2) SendCall by simp
  ultimately show ?thesis using assms(1)
    by (simp add: loop_body_def iteration_calls_def call_says_def)
next
  case LogSent
  moreover have "call_says w i k LogGenerated = None" "call_says w i k SendCall = None"
    using assms(2) LogSent by simp_all
  ultimately show ?thesis using assms(1)
    by (simp add: loop_body_def iteration_calls_def call_says_def)
next
  case SleepCall
  moreover have "call_says w i k LogGenerated = None" "call_says w i k SendCall = None"
    "call_says w i k LogSent = None"
    using assms(2) SleepCall by simp_all
  ultimately show ?thesis using assms(1)
    by (simp add: loop_body_def iteration_calls_def call_says_def)
qed

lemma loop_body_None:
  assumes "fst (loop_body w k p t i m) = None"
  shows "call_says w i k c = None"
  using assms
  by (cases c) (auto simp: loop_body_def call_says_def Let_def split: option.splits)

lemma for_loop_append:
  "for_loop w k p t i (xs @ ys) =
     (case for_loop w k p t i xs of
        (Some x, evs) \<Rightarrow> (Some x, evs)
      | (None, evs) \<Rightarrow>
          (case for_loop w (k + length xs) p t i ys of (r, evs') \<Rightarrow> (r, evs @ evs')))"
proof (induction xs arbitrary: k)
  case Nil
  then show ?case by (simp split: prod.splits)
next
  case (Cons m xs)
  show ?case
    by (simp add: Cons.IH split: prod.splits option.splits)
qed

lemma while_true_flat:
  "while_true msgs w k fuel p t i = for_loop w k p t i (cycle fuel msgs)"
proof (induction fuel arbitrary: k)
  case 0
  then show ?case by simp
next
  case (Suc fuel)
  show ?case
    by (simp add: cycle_Suc for_loop_append Suc.IH split: prod.splits option.splits)
qed

lemma for_loop_ok:
  assumes "\<forall>j c. j < length ms \<longrightarrow> call_says w i (k + j) c = None"
  shows "for_loop w k p t i ms = (None, concat (map (iteration_calls p t i) ms))"
  using assms
proof (induction ms arbitrary: k)
  case Nil
  then show ?case by simp
next
  case (Cons m ms)
  have "\<forall>c. call_says w i k c = None" using Cons.prems by force
  then have body: "loop_body w k p t i m = (None, iteration_calls p t i m)"
    by (rule loop_body_ok)
  have "\<forall>j c. j < length ms \<longrightarrow> call_says w i (Suc k + j) c = None"
    using Cons.prems by force
  then have "for_loop w (Suc k) p t i ms = (None, concat (map (iteration_calls p t i) ms))"
    by (rule Cons.IH)
  with body show ?case by simp
qed

lemma for_loop_None:
  assumes "fst (for_loop w k p t i ms) = None" and "j < length ms"
  shows "call_says w i (k + j) c = None"
  using assms
proof (induction ms arbitrary: k j)
  case Nil
  then show ?case by simp
next
  case (Cons m ms)
  from Cons.prems(1) have body: "fst (loop_body w k p t i m) = None"
    by (auto split: prod.splits option.splits)
  from Cons.prems(1) have rest: "fst (for_loop w (Suc k) p t i ms) = None"
    by (auto split: prod.splits option.splits)
  show ?case
  proof (cases j)
    case 0
    with body show ?thesis by (simp add: loop_body_None)
  next
    case (Suc j')
    with Cons.prems(2) have "j' < length ms" by simp
    with rest have "call_says w i (Suc k + j') c = None" by (rule Cons.IH)
    with Suc show ?thesis by simp
  qed
qed

lemma for_loop_fails:
  assumes "n < length ms"
      and "call_says w i (k + n) c = Some x"
      and "\<forall>j c'. j < n \<longrightarrow> call_says w i (k + j) c' = None"
      and "\<forall>c'. call_index c' < call_index c \<longrightarrow> call_says w i (k + n) c' = None"
  shows "for_loop w k p t i ms =
           (Some x, concat (map (iteration_calls p t i) (take n ms))
                    @ take (call_index c) (iteration_calls p t i (ms ! n)))"
proof -
  have split: "ms = take n ms @ (ms ! n # drop (Suc n) ms)"
    using assms(1) by (simp add: id_take_nth_drop [symmetric])
  have len: "length (take n ms) = n" using assms(1) by simp
  have "\<forall>j c'. j < length (take n ms) \<longrightarrow> call_says w i (k + j) c' = None"
    using assms(3) len by simp
  then have pre: "for_loop w k p t i (take n ms) =
                    (None, concat (map (iteration_calls p t i) (take n ms)))"
    by (rule for_loop_ok)
  have body: "loop_body w (k + n) p t i (ms ! n) =
                (Some x, take (call_index c) (iteration_calls p t i (ms ! n)))"
    using assms(2,4) by (rule loop_body_fails)
  have "for_loop w k p t i (take n ms @ (ms ! n # drop (Suc n) ms)) =
          (Some x, concat (map (iteration_calls p t i) (take n ms))
                   @ take (call_index c) (iteration_calls p t i (ms ! n)))"
    by (simp only: for_loop_append pre len body for_loop.simps prod.case option.case)
  with split show ?thesis by simp
qed

lemma loop_body_sent:
  "sent_values (snd (loop_body w k p t i m)) = [] \<or>
   sent_values (snd (loop_body w k p t i m)) = [m]"
  by (simp add: loop_body_def Let_def split: option.splits)

lemma loop_body_sent_None:
  "fst (loop_body w k p t i m) = None \<Longrightarrow> sent_values (snd (loop_body w k p t i m)) = [m]"
  by (simp add: loop_body_def Let_def split: option.splits)

lemma for_loop_sent_prefix: "prefix (sent_values (snd (for_loop w k p t i ms))) ms"
proof (induction ms arbitrary: k)
  case Nil
  then show ?case by simp
next
  case (Cons m ms)
  show ?case
  proof (cases "fst (loop_body w k p t i m)")
    case None
    then obtain evs where body: "loop_body w k p t i m = (None, evs)"
      by (cases "loop_body w k p t i m") simp
    with loop_body_sent_None [of w k p t i m] have "sent_values evs = [m]" by simp
    with body Cons.IH [of "Suc k"] show ?thesis
      by (auto split: prod.splits)
  next
    case (Some x)
    then obtain evs where body: "loop_body w k p t i m = (Some x, evs)"
      by (cases "loop_body w k p t i m") simp
    with loop_body_sent [of w k p t i m] have "sent_values evs = [] \<or> sent_values evs = [m]"
      by simp
    with body show ?thesis by auto
  qed
qed

lemma generate_messages_on_sent:
  "sent_values (snd (generate_messages_on msgs w cl fuel p t i)) =
   sent_values (snd (for_loop w 0 p t i (cycle fuel msgs)))"
  by (simp add: generate_messages_on_def while_true_flat Let_def
           split: prod.splits option.splits pyexn.splits)

lemma prefix_nth: "prefix xs ys \<Longrightarrow> n < length xs \<Longrightarrow> xs ! n = ys ! n"
  by (auto simp: prefix_def nth_append)

lemma sent_values_iterations:
  "sent_values (concat (map (iteration_calls p t i) xs)) = xs"
  by (induction xs) (simp_all add: iteration_calls_def)

lemma generate_messages_on_ok_sent:
  assumes "\<forall>k c. call_says w i k c = None"
  shows "sent_values (snd (generate_messages_on msgs w cl fuel p t i)) = cycle fuel msgs"
proof -
  have "\<forall>j c. j < length (cycle fuel msgs) \<longrightarrow> call_says w i (0 + j) c = None"
    using assms by simp
  then have "for_loop w 0 p t i (cycle fuel msgs) =
               (None, concat (map (iteration_calls p t i) (cycle fuel msgs)))"
    by (rule for_loop_ok)
  then show ?thesis
    by (simp add: generate_messages_on_sent sent_values_iterations)
qed

lemma quiet_ok: "0 \<le> i \<Longrightarrow> i \<le> 9223372036 \<Longrightarrow> \<forall>k c. call_says quiet i k c = None"
  by (simp add: call_says_def quiet_def time_sleep_def)

lemma abc7: "take 7 (cycle 3 [''a'', ''b'', ''c'']) = [''a'', ''b'', ''c'', ''a'', ''b'', ''c'', ''a'']"
  by (simp add: cycle_def eval_nat_numeral)

section \<open>Claims about the emission loop\<close>

text \<open>
  Claim C1. In every run of \<open>generate_messages\<close> the n-th message sent, counted from 0, is
  the entry of the message list at index \<open>n mod L\<close>, \<open>L\<close> the length of the list. When no
  call raises, a run of \<open>fuel\<close> passes of the \<open>while\<close> loop sends \<open>fuel * L\<close> messages,
  and on the list a, b, c with interval 0 the first seven values sent are
  a, b, c, a, b, c, a. (\<open>generate_messages\<close> is \<open>generate_messages_on string_list\<close>.)
\<close>

theorem generate_messages_cyclic_order:
  "(\<forall>n < length (sent_values (snd (generate_messages_on msgs w cl fuel p topic interval))).
      sent_values (snd (generate_messages_on msgs w cl fuel p topic interval)) ! n
        = msgs ! (n mod length msgs))
   \<and> ((\<forall>k c. call_says w interval k c = None) \<longrightarrow>
        length (sent_values (snd (generate_messages_on msgs w cl fuel p topic interval)))
          = fuel * length msgs)
   \<and> take 7 (sent_values (snd (generate_messages_on [''a'', ''b'', ''c''] quiet cl 3 p topic 0)))
        = [''a'', ''b'', ''c'', ''a'', ''b'', ''c'', ''a'']"
proof (intro conjI allI impI)
  fix n
  let ?sent = "sent_values (snd (generate_messages_on msgs w cl fuel p topic interval))"
  assume n: "n < length ?sent"
  have pre: "prefix ?sent (cycle fuel msgs)"
    by (simp only: generate_messages_on_sent for_loop_sent_prefix)
  have "length ?sent \<le> fuel * length msgs"
    using prefix_length_le [OF pre] by simp
  with n have "n < fuel * length msgs" by simp
  then have "cycle fuel msgs ! n = msgs ! (n mod length msgs)" by (rule cycle_nth)
  with prefix_nth [OF pre n] show "?sent ! n = msgs ! (n mod length msgs)" by simp
next
  assume "\<forall>k c. call_says w interval k c = None"
  then show "length (sent_values (snd (generate_messages_on msgs w cl fuel p topic interval)))
               = fuel * length msgs"
    by (simp add: generate_messages_on_ok_sent)
next
  have "\<forall>k c. call_says quiet 0 k c = None" by (simp add: quiet_ok)
  then have "sent_values (snd (generate_messages_on [''a'', ''b'', ''c''] quiet cl 3 p topic 0))
               = cycle 3 [''a'', ''b'', ''c'']"
    by (rule generate_messages_on_ok_sent)
  then show "take 7 (sent_values (snd (generate_messages_on [''a'', ''b'', ''c''] quiet cl 3 p topic 0)))
          = [''a'', ''b'', ''c'', ''a'', ''b'', ''c'', ''a'']"
    by (simp only: abc7)
qed

theorem generate_messages_cyclic_order_witness:
  "(\<forall>k c. call_says quiet 0 k c = None)
   \<and> length (sent_values (snd (generate_messages_on [''a'', ''b'', ''c''] quiet None 2 0 ''t'' 0))) = 6
   \<and> sent_values (snd (generate_messages_on [''a'', ''b'', ''c''] quiet None 2 0 ''t'' 0)) ! 5 = ''c''"
proof -
  let ?sent = "sent_values (snd (generate_messages_on [''a'', ''b'', ''c''] quiet None 2 0 ''t'' 0))"
  note inst = generate_messages_cyclic_order [of "[''a'', ''b'', ''c'']" quiet None 2 0 "''t''" 0]
  have ok: "\<forall>k c. call_says quiet 0 k c = None" by (simp add: quiet_ok)
  have "length ?sent = 2 * length [''a'', ''b'', ''c'']"
    using inst [THEN conjunct2, THEN conjunct1] ok by (rule mp)
  then have len: "length ?sent = 6" by simp
  then have lt: "5 < length ?sent" by simp
  have "?sent ! 5 = [''a'', ''b'', ''c''] ! (5 mod length [''a'', ''b'', ''c''])"
    using inst [THEN conjunct1, rule_format, of 5] lt by blast
  also have "[''a'', ''b'', ''c''] ! (5 mod length [''a'', ''b'', ''c'']) = ''c''"
    by simp
  finally have "?sent ! 5 = ''c''" .
  with ok len show ?thesis by (intro conjI)
qed

lemma non_log_calls_append [simp]:
  "non_log_calls (xs @ ys) = non_log_calls xs @ non_log_calls ys"
  by (simp add: non_log_calls_def)

lemma non_log_calls_iterations:
  "non_log_calls (concat (map (iteration_calls p t i) xs)) = concat (map (send_then_sleep p t i) xs)"
  by (induction xs) (simp_all add: iteration_calls_def send_then_sleep_def non_log_calls_def)

lemma generate_messages_on_ok:
  assumes "\<forall>k c. call_says w i k c = None"
  shows "generate_messages_on msgs w cl fuel p t i =
           (Running, concat (map (iteration_calls p t i) (cycle fuel msgs)))"
proof -
  have "\<forall>j c. j < length (cycle fuel msgs) \<longrightarrow> call_says w i (0 + j) c = None"
    using assms by simp
  then have "for_loop w 0 p t i (cycle fuel msgs) =
               (None, concat (map (iteration_calls p t i) (cycle fuel msgs)))"
    by (rule for_loop_ok)
  then show ?thesis
    by (simp add: generate_messages_on_def while_true_flat)
qed

lemma send_then_sleep_nth:
  "n < length xs \<Longrightarrow>
     concat (map (send_then_sleep p t i) xs) ! (2 * n) = Send p t (xs ! n) \<and>
     concat (map (send_then_sleep p t i) xs) ! (2 * n + 1) = Sleep i"
proof (induction xs arbitrary: n)
  case Nil
  then show ?case by simp
next
  case (Cons x xs)
  show ?case
  proof (cases n)
    case 0
    then show ?thesis by (simp add: send_then_sleep_def)
  next
    case (Suc n')
    with Cons.prems have "n' < length xs" by simp
    from Cons.IH [OF this] Suc show ?thesis by (simp add: send_then_sleep_def)
  qed
qed

lemma length_send_then_sleep:
  "length (concat (map (send_then_sleep p t i) xs)) = 2 * length xs"
  by (induction xs) (simp_all add: send_then_sleep_def)

text \<open>
  Claim C8. In a run of the loop in which no call raises, the calls on the broker and the
  timer are, in order, a send and then one \<open>time.sleep\<close> of exactly the configured
  interval, for each message of each pass: every send is followed by that wait before
  the next send, also between the last message of a pass and the first of the next.
\<close>

theorem every_send_followed_by_one_wait:
  assumes "\<forall>k c. call_says w interval k c = None"
  shows "non_log_calls (snd (generate_messages_on msgs w cl fuel p topic interval))
           = concat (map (send_then_sleep p topic interval) (cycle fuel msgs))
         \<and> length (non_log_calls (snd (generate_messages_on msgs w cl fuel p topic interval)))
           = 2 * (fuel * length msgs)
         \<and> (\<forall>n < fuel * length msgs.
              non_log_calls (snd (generate_messages_on msgs w cl fuel p topic interval)) ! (2 * n)
                = Send p topic (msgs ! (n mod length msgs))
              \<and> non_log_calls (snd (generate_messages_on msgs w cl fuel p topic interval)) ! (2 * n + 1)
                = Sleep interval)"
proof -
  let ?calls = "non_log_calls (snd (generate_messages_on msgs w cl fuel p topic interval))"
  have eq: "?calls = concat (map (send_then_sleep p topic interval) (cycle fuel msgs))"
    by (simp add: generate_messages_on_ok [OF assms] non_log_calls_iterations)
  have len: "length ?calls = 2 * (fuel * length msgs)"
    by (simp only: eq length_send_then_sleep length_cycle)
  have "?calls ! (2 * n) = Send p topic (msgs ! (n mod length msgs))
        \<and> ?calls ! (2 * n + 1) = Sleep interval" if n: "n < fuel * length msgs" for n
  proof -
    from n have "n < length (cycle fuel msgs)" by simp
    from send_then_sleep_nth [OF this, of p topic interval] cycle_nth [OF n]
    show ?thesis by (simp only: eq)
  qed
  with eq len show ?thesis by blast
qed

theorem every_send_followed_by_one_wait_witness:
  "(\<forall>k c. call_says quiet 2 k c = None)
   \<and> non_log_calls (snd (generate_messages_on [''a'', ''b''] quiet None 2 0 ''t'' 2))
       = [Send 0 ''t'' ''a'', Sleep 2, Send 0 ''t'' ''b'', Sleep 2,
          Send 0 ''t'' ''a'', Sleep 2, Send 0 ''t'' ''b'', Sleep 2]"
proof -
  have ok: "\<forall>k c. call_says quiet 2 k c = None" by (simp add: quiet_ok)
  have "non_log_calls (snd (generate_messages_on [''a'', ''b''] quiet None 2 0 ''t'' 2))
          = concat (map (send_then_sleep 0 ''t'' 2) (cycle 2 [''a'', ''b'']))"
    using every_send_followed_by_one_wait [OF ok, of "[''a'', ''b'']" None 2 0 "''t''"]
    by (rule conjunct1)
  also have "concat (map (send_then_sleep 0 ''t'' 2) (cycle 2 [''a'', ''b'']))
          = [Send 0 ''t'' ''a'', Sleep 2, Send 0 ''t'' ''b'', Sleep 2,
             Send 0 ''t'' ''a'', Sleep 2, Send 0 ''t'' ''b'', Sleep 2]"
    by (simp add: cycle_def send_then_sleep_def numeral_2_eq_2)
  finally show ?thesis using ok by (intro conjI)
qed

lemma loop_body_no_close: "filter is_close (snd (loop_body w k p t i m)) = []"
  by (simp add: loop_body_def Let_def split: option.splits)

lemma for_loop_no_close: "filter is_close (snd (for_loop w k p t i ms)) = []"
proof (induction ms arbitrary: k)
  case Nil
  then show ?case by simp
next
  case (Cons m ms)
  obtain r evs where body: "loop_body w k p t i m = (r, evs)"
    by (cases "loop_body w k p t i m")
  with loop_body_no_close [of w k p t i m] have evs: "filter is_close evs = []" by simp
  obtain r' evs' where rest: "for_loop w (Suc k) p t i ms = (r', evs')"
    by (cases "for_loop w (Suc k) p t i ms")
  with Cons.IH [of "Suc k"] have "filter is_close evs' = []" by simp
  with body rest evs show ?case by (cases r) simp_all
qed

lemma generate_messages_on_Running:
  "fst (generate_messages_on msgs w cl fuel p t i) = Running
     \<longleftrightarrow> fst (for_loop w 0 p t i (cycle fuel msgs)) = None"
  by (auto simp: generate_messages_on_def while_true_flat Let_def
           split: prod.splits option.splits pyexn.splits)

lemma generate_messages_on_exits:
  assumes "msgs \<noteq> []" and "call_says w i k c \<noteq> None"
  shows "fst (generate_messages_on msgs w cl (Suc k) p t i) \<noteq> Running"
proof
  assume "fst (generate_messages_on msgs w cl (Suc k) p t i) = Running"
  then have none: "fst (for_loop w 0 p t i (cycle (Suc k) msgs)) = None"
    by (simp only: generate_messages_on_Running)
  from assms(1) have "1 \<le> length msgs" by (cases msgs) simp_all
  then have "Suc k * 1 \<le> Suc k * length msgs" by (rule mult_le_mono2)
  then have "k < length (cycle (Suc k) msgs)" by simp
  with none have "call_says w i (0 + k) c = None" by (rule for_loop_None)
  with assms(2) show False by simp
qed

text \<open>
  Claim C2. Whenever \<open>generate_messages\<close> leaves its loop (an interrupt, a failure of a
  call, or an exception that no handler takes) \<open>producer.close()\<close> has been called
  exactly once when the function returns or raises; while the loop runs it has not been
  called. The loop does leave as soon as one call raises: if some call of iteration \<open>k\<close>
  raises, \<open>k + 1\<close> passes of the \<open>while\<close> loop are enough fuel.
\<close>

theorem close_invoked_exactly_once:
  "(fst (generate_messages_on msgs w cl fuel p topic interval) \<noteq> Running \<longrightarrow>
      filter is_close (snd (generate_messages_on msgs w cl fuel p topic interval)) = [Close p])
   \<and> (fst (generate_messages_on msgs w cl fuel p topic interval) = Running \<longrightarrow>
      filter is_close (snd (generate_messages_on msgs w cl fuel p topic interval)) = [])
   \<and> (msgs \<noteq> [] \<and> call_says w interval k c \<noteq> None \<longrightarrow>
      fst (generate_messages_on msgs w cl (Suc k) p topic interval) \<noteq> Running)"
proof (intro conjI impI)
  obtain r evs where loop: "for_loop w 0 p topic interval (cycle fuel msgs) = (r, evs)"
    by (cases "for_loop w 0 p topic interval (cycle fuel msgs)")
  with for_loop_no_close [of w 0 p topic interval "cycle fuel msgs"]
  have evs: "filter is_close evs = []" by simp
  {
    assume "fst (generate_messages_on msgs w cl fuel p topic interval) \<noteq> Running"
    with loop evs
    show "filter is_close (snd (generate_messages_on msgs w cl fuel p topic interval)) = [Close p]"
      by (auto simp: generate_messages_on_def while_true_flat Let_def
               split: option.splits pyexn.splits)
  }
  {
    assume "fst (generate_messages_on msgs w cl fuel p topic interval) = Running"
    with loop evs
    show "filter is_close (snd (generate_messages_on msgs w cl fuel p topic interval)) = []"
      by (auto simp: generate_messages_on_def while_true_flat Let_def
               split: option.splits pyexn.splits)
  }
next
  assume "msgs \<noteq> [] \<and> call_says w interval k c \<noteq> None"
  then show "fst (generate_messages_on msgs w cl (Suc k) p topic interval) \<noteq> Running"
    using generate_messages_on_exits by blast
qed


theorem close_invoked_exactly_once_witness:
  "[''a'', ''b''] \<noteq> []
   \<and> call_says (raise_at 1 SendCall KeyboardInterrupt) 0 1 SendCall \<noteq> None
   \<and> fst (generate_messages_on [''a'', ''b''] (raise_at 1 SendCall KeyboardInterrupt) None
            (Suc 1) 0 ''t'' 0) \<noteq> Running
   \<and> filter is_close (snd (generate_messages_on [''a'', ''b'']
            (raise_at 1 SendCall KeyboardInterrupt) None (Suc 1) 0 ''t'' 0)) = [Close 0]
   \<and> fst (generate_messages_on [''a'', ''b''] quiet None 2 0 ''t'' 0) = Running
   \<and> filter is_close (snd (generate_messages_on [''a'', ''b''] quiet None 2 0 ''t'' 0)) = []"
proof -
  note a = close_invoked_exactly_once
             [of "[''a'', ''b'']" "raise_at 1 SendCall KeyboardInterrupt" None "Suc 1" 0 "''t''" 0
                 1 SendCall]
  note b = close_invoked_exactly_once [of "[''a'', ''b'']" quiet None 2 0 "''t''" 0]
  have h1: "[''a'', ''b''] \<noteq> []" by simp
  have h2: "call_says (raise_at 1 SendCall KeyboardInterrupt) 0 1 SendCall \<noteq> None"
    by (simp add: call_says_def raise_at_def)
  from a h1 h2 have e: "fst (generate_messages_on [''a'', ''b'']
        (raise_at 1 SendCall KeyboardInterrupt) None (Suc 1) 0 ''t'' 0) \<noteq> Running"
    by blast
  with a have c: "filter is_close (snd (generate_messages_on [''a'', ''b'']
        (raise_at 1 SendCall KeyboardInterrupt) None (Suc 1) 0 ''t'' 0)) = [Close 0]"
    by blast
  have "\<forall>k c. call_says quiet 0 k c = None" by (simp add: quiet_ok)
  then have r: "fst (generate_messages_on [''a'', ''b''] quiet None 2 0 ''t'' 0) = Running"
    by (simp add: generate_messages_on_ok)
  with b have "filter is_close (snd (generate_messages_on [''a'', ''b''] quiet None 2 0 ''t'' 0)) = []"
    by blast
  with h1 h2 e c r show ?thesis by (intro conjI)
qed

lemma drop_length_append: "length xs = n \<Longrightarrow> drop n (xs @ ys) = ys"
  by simp

lemma length_iterations:
  "length (concat (map (iteration_calls p t i) xs)) = 4 * length xs"
  by (induction xs) (simp_all add: iteration_calls_def)

lemma length_take_call_index:
  "length (take (call_index c) (iteration_calls p t i m)) = call_index c"
  by (cases c) (simp_all add: iteration_calls_def)

text \<open>
  Claim C5. When a call of the loop raises an \<open>Exception\<close> (call \<open>c\<close> of iteration \<open>k\<close>,
  every earlier call having returned), the trace of \<open>generate_messages\<close> is: the \<open>k\<close>
  complete iterations, the calls of iteration \<open>k\<close> up to the one that raised, one log
  line at error severity with the text of the exception, then \<open>producer.close()\<close> and
  its log line. Nothing is sent after the failing call: the loop is not resumed.
\<close>

theorem failure_is_logged_and_loop_abandoned:
  assumes "call_says w interval k c = Some (Exception cls msg)"
      and "\<forall>j c'. j < k \<longrightarrow> call_says w interval j c' = None"
      and "\<forall>c'. call_index c' < call_index c \<longrightarrow> call_says w interval k c' = None"
      and "k < fuel * length msgs"
  shows "generate_messages_on msgs w cl fuel p topic interval =
           ((case cl of None \<Rightarrow> Returns () | Some y \<Rightarrow> Raises y),
            concat (map (iteration_calls p topic interval) (take k (cycle fuel msgs)))
            @ take (call_index c) (iteration_calls p topic interval (msgs ! (k mod length msgs)))
            @ [Log ERROR (''Error in message generation: '' @ msg), Close p]
            @ (case cl of None \<Rightarrow> [Log INFO ''Kafka producer closed.''] | Some y \<Rightarrow> []))
         \<and> filter is_send (drop (4 * k + call_index c)
               (snd (generate_messages_on msgs w cl fuel p topic interval))) = []"
proof -
  let ?done = "concat (map (iteration_calls p topic interval) (take k (cycle fuel msgs)))"
  let ?part = "take (call_index c) (iteration_calls p topic interval (msgs ! (k mod length msgs)))"
  let ?tail = "[Log ERROR (''Error in message generation: '' @ msg), Close p]
               @ (case cl of None \<Rightarrow> [Log INFO ''Kafka producer closed.''] | Some y \<Rightarrow> [])"
  have k: "k < length (cycle fuel msgs)" using assms(4) by simp
  have "for_loop w 0 p topic interval (cycle fuel msgs) =
          (Some (Exception cls msg),
           ?done @ take (call_index c) (iteration_calls p topic interval (cycle fuel msgs ! k)))"
    using k assms(1,2,3) by (intro for_loop_fails) simp_all
  then have loop: "for_loop w 0 p topic interval (cycle fuel msgs) =
                     (Some (Exception cls msg), ?done @ ?part)"
    by (simp only: cycle_nth [OF assms(4)])
  have run: "generate_messages_on msgs w cl fuel p topic interval =
               ((case cl of None \<Rightarrow> Returns () | Some y \<Rightarrow> Raises y),
                ?done @ ?part @ ?tail)"
    by (simp add: generate_messages_on_def while_true_flat loop split: option.splits)
  have "length ?done = 4 * k"
    using k by (simp add: length_iterations)
  moreover have "length ?part = call_index c"
    by (rule length_take_call_index)
  ultimately have "length (?done @ ?part) = 4 * k + call_index c"
    by (simp only: length_append)
  then have "drop (4 * k + call_index c) ((?done @ ?part) @ ?tail) = ?tail"
    by (rule drop_length_append)
  then have "filter is_send (drop (4 * k + call_index c) (?done @ ?part @ ?tail)) = []"
    by (simp split: option.splits)
  with run show ?thesis by simp
qed

theorem failure_is_logged_and_loop_abandoned_witness:
  "call_says (raise_at 1 SendCall (Exception ''KafkaTimeoutError'' ''timed out'')) 5 1 SendCall
     = Some (Exception ''KafkaTimeoutError'' ''timed out'')
   \<and> (\<forall>c'. call_says (raise_at 1 SendCall (Exception ''KafkaTimeoutError'' ''timed out''))
               5 0 c' = None)
   \<and> call_says (raise_at 1 SendCall (Exception ''KafkaTimeoutError'' ''timed out''))
         5 1 LogGenerated = None
   \<and> (1::nat) < 1 * length [''a'', ''b'']
   \<and> generate_messages_on [''a'', ''b'']
         (raise_at 1 SendCall (Exception ''KafkaTimeoutError'' ''timed out'')) None 1 0 ''t'' 5
       = (Returns (),
          [Log INFO ''Generated buzz: a'', Send 0 ''t'' ''a'',
           Log INFO (''Sent message to topic '' @ squote @ ''t'' @ squote @ '': a''), Sleep 5,
           Log INFO ''Generated buzz: b'', Send 0 ''t'' ''b'',
           Log ERROR ''Error in message generation: timed out'', Close 0,
           Log INFO ''Kafka producer closed.''])"
proof -
  let ?w = "raise_at 1 SendCall (Exception ''KafkaTimeoutError'' ''timed out'')"
  have h1: "call_says ?w 5 1 SendCall = Some (Exception ''KafkaTimeoutError'' ''timed out'')"
    by (simp add: call_says_def raise_at_def)
  have h2: "\<forall>j c'. j < 1 \<longrightarrow> call_says ?w 5 j c' = None"
    by (simp add: call_says_def raise_at_def time_sleep_def)
  have h3: "\<forall>c'. call_index c' < call_index SendCall \<longrightarrow> call_says ?w 5 1 c' = None"
    by (auto simp: call_says_def raise_at_def)
  have h4: "(1::nat) < 1 * length [''a'', ''b'']" by simp
  have "generate_messages_on [''a'', ''b''] ?w None 1 0 ''t'' 5
       = (Returns (),
          [Log INFO ''Generated buzz: a'', Send 0 ''t'' ''a'',
           Log INFO (''Sent message to topic '' @ squote @ ''t'' @ squote @ '': a''), Sleep 5,
           Log INFO ''Generated buzz: b'', Send 0 ''t'' ''b'',
           Log ERROR ''Error in message generation: timed out'', Close 0,
           Log INFO ''Kafka producer closed.''])"
    using failure_is_logged_and_loop_abandoned [OF h1 h2 h3 h4, of None 0 "''t''"]
    by (simp add: cycle_def iteration_calls_def)
  moreover have "\<forall>c'. call_says ?w 5 0 c' = None"
    using h2 by simp
  moreover have "call_says ?w 5 1 LogGenerated = None"
    using h3 by simp
  ultimately show ?thesis using h1 h4 by (intro conjI)
qed

section \<open>The branches of \<open>main\<close>\<close>

lemma get_message_interval_events:
  "snd (get_message_interval i env) = [GetEnv ''MESSAGE_INTERVAL_SECONDS''] \<or>
   (\<exists>n. snd (get_message_interval i env) =
      [GetEnv ''MESSAGE_INTERVAL_SECONDS'',
       Log INFO (''Message interval: '' @ str_int n @ '' seconds'')])"
  by (auto simp: get_message_interval_def split: sum.splits)

lemma main_verify_fails:
  "verify_services_says w = Some x \<Longrightarrow> main fuel w = (Raises x, startup_calls)"
  by (simp add: main_def startup_calls_def)

lemma main_interval_fails:
  assumes "verify_services_says w = None"
      and "get_message_interval (int_says w) (load_dotenv (dotenv_file w) (environ w)) = (Inl x, ev2)"
  shows "main fuel w =
           (Raises x,
            startup_calls @ snd (get_kafka_topic (load_dotenv (dotenv_file w) (environ w))) @ ev2)"
  using assms
  by (cases "get_kafka_topic (load_dotenv (dotenv_file w) (environ w))")
     (simp add: main_def startup_calls_def Let_def)

lemma main_no_producer:
  assumes "verify_services_says w = None"
      and "get_message_interval (int_says w) (load_dotenv (dotenv_file w) (environ w)) = (Inr n, ev2)"
      and "create_kafka_producer_says w = Inr None"
  shows "main fuel w =
           (Raises (SystemExit 3),
            startup_calls @ snd (get_kafka_topic (load_dotenv (dotenv_file w) (environ w))) @ ev2
            @ [CreateKafkaProducer, Log ERROR ''Failed to create Kafka producer. Exiting...''])"
  using assms
  by (cases "get_kafka_topic (load_dotenv (dotenv_file w) (environ w))")
     (simp add: main_def startup_calls_def Let_def)

lemma main_topic_fails:
  assumes "verify_services_says w = None"
      and "get_message_interval (int_says w) (load_dotenv (dotenv_file w) (environ w)) = (Inr n, ev2)"
      and "create_kafka_producer_says w = Inr (Some p)"
      and "create_kafka_topic_says w (fst (get_kafka_topic (load_dotenv (dotenv_file w) (environ w))))
             = Some (Exception cls msg)"
  shows "main fuel w =
           (Raises (SystemExit 1),
            startup_calls @ snd (get_kafka_topic (load_dotenv (dotenv_file w) (environ w))) @ ev2
            @ [CreateKafkaProducer,
               CreateKafkaTopic (fst (get_kafka_topic (load_dotenv (dotenv_file w) (environ w)))),
               Log ERROR (''Failed to create or verify topic '' @ squote
                          @ fst (get_kafka_topic (load_dotenv (dotenv_file w) (environ w)))
                          @ squote @ '': '' @ msg)])"
  using assms
  by (cases "get_kafka_topic (load_dotenv (dotenv_file w) (environ w))")
     (simp add: main_def startup_calls_def Let_def)

lemma main_runs:
  assumes "verify_services_says w = None"
      and "get_message_interval (int_says w) (load_dotenv (dotenv_file w) (environ w)) = (Inr n, ev2)"
      and "create_kafka_producer_says w = Inr (Some p)"
      and "get_kafka_topic (load_dotenv (dotenv_file w) (environ w)) = (topic, ev1)"
      and "create_kafka_topic_says w topic = None"
      and "generate_messages (loop_says w) (close_says w) fuel p topic n = (r, ev4)"
  shows "main fuel w =
           (r,
            startup_calls @ ev1 @ ev2
            @ [CreateKafkaProducer, CreateKafkaTopic topic,
               Log INFO (''Kafka topic '' @ squote @ topic @ squote @ '' is ready.''),
               Log INFO (''Starting message production to topic '' @ squote @ topic
                         @ squote @ ''...'')]
            @ ev4 @ (case r of Returns u \<Rightarrow> [Log INFO ''END producer.''] | _ \<Rightarrow> []))"
  using assms by (cases r) (simp_all add: main_def startup_calls_def Let_def)


lemma loop_body_events:
  "e \<in> set (snd (loop_body w k p t i m)) \<Longrightarrow> is_log e \<or> is_send e \<or> e = Sleep i"
  by (auto simp: loop_body_def Let_def split: option.splits)

lemma for_loop_events:
  "e \<in> set (snd (for_loop w k p t i ms)) \<Longrightarrow> is_log e \<or> is_send e \<or> e = Sleep i"
proof (induction ms arbitrary: k)
  case Nil
  then show ?case by simp
next
  case (Cons m ms)
  obtain r evs where body: "loop_body w k p t i m = (r, evs)"
    by (cases "loop_body w k p t i m")
  obtain r' evs' where rest: "for_loop w (Suc k) p t i ms = (r', evs')"
    by (cases "for_loop w (Suc k) p t i ms")
  from Cons.prems body rest have "e \<in> set evs \<or> e \<in> set evs'"
    by (cases r) auto
  then show ?case
  proof
    assume "e \<in> set evs"
    with body loop_body_events [of e w k p t i m] show ?thesis by simp
  next
    assume "e \<in> set evs'"
    with rest Cons.IH [of "Suc k"] show ?thesis by simp
  qed
qed

lemma generate_messages_on_events:
  assumes "e \<in> set (snd (generate_messages_on msgs w cl fuel p t i))"
  shows "is_log e \<or> is_send e \<or> e = Sleep i \<or> e = Close p"
proof -
  obtain r evs where loop: "for_loop w 0 p t i (cycle fuel msgs) = (r, evs)"
    by (cases "for_loop w 0 p t i (cycle fuel msgs)")
  have evs: "e \<in> set evs \<Longrightarrow> is_log e \<or> is_send e \<or> e = Sleep i"
    using for_loop_events [of e w 0 p t i "cycle fuel msgs"] loop by simp
  from assms loop have "e \<in> set evs \<or> is_log e \<or> e = Close p"
    by (auto simp: generate_messages_on_def while_true_flat Let_def
             split: option.splits pyexn.splits)
  with evs show ?thesis by blast
qed

lemma generate_messages_events:
  assumes "e \<in> set (snd (generate_messages lw cl fuel p t i))"
  shows "is_log e \<or> is_send e \<or> e = Sleep i \<or> e = Close p"
  using assms unfolding generate_messages_def by (rule generate_messages_on_events)

lemma get_kafka_topic_events:
  "snd (get_kafka_topic env) =
     [GetEnv ''KAFKA_TOPIC'', Log INFO (''Kafka topic: '' @ fst (get_kafka_topic env))]"
  by (simp add: get_kafka_topic_def Let_def)

lemma main_producer_raises:
  assumes "verify_services_says w = None"
      and "get_message_interval (int_says w) (load_dotenv (dotenv_file w) (environ w)) = (Inr n, ev2)"
      and "create_kafka_producer_says w = Inl x"
  shows "main fuel w =
           (Raises x,
            startup_calls @ snd (get_kafka_topic (load_dotenv (dotenv_file w) (environ w))) @ ev2
            @ [CreateKafkaProducer])"
  using assms
  by (cases "get_kafka_topic (load_dotenv (dotenv_file w) (environ w))")
     (simp add: main_def startup_calls_def Let_def)

lemma main_topic_raises:
  assumes "verify_services_says w = None"
      and "get_message_interval (int_says w) (load_dotenv (dotenv_file w) (environ w)) = (Inr n, ev2)"
      and "create_kafka_producer_says w = Inr (Some p)"
      and "create_kafka_topic_says w (fst (get_kafka_topic (load_dotenv (dotenv_file w) (environ w))))
             = Some x"
      and "\<forall>cls msg. x \<noteq> Exception cls msg"
  shows "main fuel w =
           (Raises x,
            startup_calls @ snd (get_kafka_topic (load_dotenv (dotenv_file w) (environ w))) @ ev2
            @ [CreateKafkaProducer,
               CreateKafkaTopic (fst (get_kafka_topic (load_dotenv (dotenv_file w) (environ w))))])"
  using assms
  by (cases "get_kafka_topic (load_dotenv (dotenv_file w) (environ w))"; cases x)
     (simp_all add: main_def startup_calls_def Let_def)

lemma producer_creation_reached:
  assumes "CreateKafkaProducer \<in> set (snd (main fuel w))"
  shows "verify_services_says w = None \<and>
         (\<exists>n ev2. get_message_interval (int_says w) (load_dotenv (dotenv_file w) (environ w)) = (Inr n, ev2))"
proof (cases "verify_services_says w")
  case (Some x)
  with assms show ?thesis by (simp add: main_verify_fails startup_calls_def)
next
  case None
  obtain r ev2 where gi: "get_message_interval (int_says w) (load_dotenv (dotenv_file w) (environ w)) = (r, ev2)"
    by (cases "get_message_interval (int_says w) (load_dotenv (dotenv_file w) (environ w))")
  show ?thesis
  proof (cases r)
    case (Inl x)
    have "CreateKafkaProducer \<notin> set ev2"
      using get_message_interval_events [of "int_says w" "load_dotenv (dotenv_file w) (environ w)"] gi by auto
    with assms None gi Inl show ?thesis
      by (simp add: main_interval_fails startup_calls_def get_kafka_topic_events)
  next
    case (Inr n)
    with None gi show ?thesis by simp
  qed
qed

lemma topic_creation_reached:
  assumes "CreateKafkaTopic t \<in> set (snd (main fuel w))"
  shows "t = fst (get_kafka_topic (load_dotenv (dotenv_file w) (environ w))) \<and>
         verify_services_says w = None \<and>
         (\<exists>n ev2. get_message_interval (int_says w) (load_dotenv (dotenv_file w) (environ w)) = (Inr n, ev2)) \<and>
         (\<exists>p. create_kafka_producer_says w = Inr (Some p))"
proof (cases "verify_services_says w")
  case (Some x)
  with assms show ?thesis by (simp add: main_verify_fails startup_calls_def)
next
  case None
  let ?env = "load_dotenv (dotenv_file w) (environ w)"
  obtain r ev2 where gi: "get_message_interval (int_says w) ?env = (r, ev2)"
    by (cases "get_message_interval (int_says w) ?env")
  have ev2: "CreateKafkaTopic t \<notin> set ev2"
    using get_message_interval_events [of "int_says w" ?env] gi by auto
  show ?thesis
  proof (cases r)
    case (Inl x)
    with assms None gi ev2 show ?thesis
      by (simp add: main_interval_fails startup_calls_def get_kafka_topic_events)
  next
    case (Inr n)
    note gi' = gi [unfolded Inr]
    show ?thesis
    proof (cases "create_kafka_producer_says w")
      case (Inl x)
      with assms None gi' ev2 show ?thesis
        by (simp add: main_producer_raises startup_calls_def get_kafka_topic_events)
    next
      case (Inr po)
      show ?thesis
      proof (cases po)
        case None' : None
        with assms None gi' ev2 Inr show ?thesis
          by (simp add: main_no_producer startup_calls_def get_kafka_topic_events)
      next
        case (Some p)
        note pr = Inr [unfolded Some]
        show ?thesis
        proof (cases "create_kafka_topic_says w (fst (get_kafka_topic ?env))")
          case tn: None
          obtain res ev4 where gm: "generate_messages (loop_says w) (close_says w) fuel p
                                      (fst (get_kafka_topic ?env)) n = (res, ev4)"
            by (cases "generate_messages (loop_says w) (close_says w) fuel p
                         (fst (get_kafka_topic ?env)) n")
          have ev4: "CreateKafkaTopic t \<notin> set ev4"
            using generate_messages_events [of "CreateKafkaTopic t" "loop_says w" "close_says w"
                    fuel p "fst (get_kafka_topic ?env)" n] gm by auto
          have gk: "get_kafka_topic ?env = (fst (get_kafka_topic ?env), snd (get_kafka_topic ?env))"
            by simp
          from assms ev2 ev4 have "t = fst (get_kafka_topic ?env)"
            unfolding main_runs [OF None gi' pr gk tn gm]
            by (cases res) (auto simp: startup_calls_def get_kafka_topic_events)
          with None gi' pr show ?thesis by simp
        next
          case ts: (Some x)
          show ?thesis
          proof (cases "\<exists>cls msg. x = Exception cls msg")
            case True
            then obtain cls msg where x: "x = Exception cls msg" by blast
            from assms ev2 have "t = fst (get_kafka_topic ?env)"
              unfolding main_topic_fails [OF None gi' pr ts [unfolded x]]
              by (auto simp: startup_calls_def get_kafka_topic_events)
            with None gi' pr show ?thesis by simp
          next
            case False
            then have nx: "\<forall>cls msg. x \<noteq> Exception cls msg" by blast
            from assms ev2 have "t = fst (get_kafka_topic ?env)"
              unfolding main_topic_raises [OF None gi' pr ts nx]
              by (auto simp: startup_calls_def get_kafka_topic_events)
            with None gi' pr show ?thesis by simp
          qed
        qed
      qed
    qed
  qed
qed

lemma run_script_trace: "snd (run_script fuel w) = snd (main fuel w)"
  by (simp add: run_script_def split: prod.splits outcome.splits pyexn.splits)

lemma run_script_exit:
  "fst (main fuel w) = Raises (SystemExit n) \<Longrightarrow> fst (run_script fuel w) = Exited n"
  by (cases "main fuel w") (simp add: run_script_def)

lemma run_script_traceback:
  "fst (main fuel w) = Raises (Exception cls msg) \<Longrightarrow>
     fst (run_script fuel w) = Traceback (Exception cls msg)"
  by (cases "main fuel w") (simp add: run_script_def)

lemma main_starts: "\<exists>rest. snd (main fuel w) = startup_calls @ rest"
  by (auto simp: main_def Let_def startup_calls_def
           split: option.splits sum.splits prod.splits pyexn.splits outcome.splits)

lemma main_config_after_verify:
  "verify_services_says w = None \<Longrightarrow>
     \<exists>rest. snd (main fuel w) = startup_calls @ GetEnv ''KAFKA_TOPIC'' # rest"
  by (auto simp: main_def Let_def startup_calls_def get_kafka_topic_def
           split: option.splits sum.splits prod.splits pyexn.splits outcome.splits)

lemma string_list_nonempty: "string_list \<noteq> []"
  by (simp add: string_list_def)

section \<open>Claims about \<open>main\<close> and the configuration\<close>

text \<open>
  Claim C3. If the run reaches \<open>create_kafka_producer()\<close> and that call returns no
  producer, \<open>main\<close> calls \<open>sys.exit(3)\<close>: the process ends with exit code 3, the last call
  made is the error log line, and neither \<open>create_kafka_topic\<close> nor \<open>producer.send\<close> is
  ever called.
\<close>

theorem no_producer_exits_with_code_3:
  assumes "CreateKafkaProducer \<in> set (snd (main fuel w))"
      and "create_kafka_producer_says w = Inr None"
  shows "fst (main fuel w) = Raises (SystemExit 3)
         \<and> fst (run_script fuel w) = Exited 3
         \<and> filter is_create_topic (snd (run_script fuel w)) = []
         \<and> filter is_send (snd (run_script fuel w)) = []
         \<and> last (snd (run_script fuel w)) = Log ERROR ''Failed to create Kafka producer. Exiting...''"
proof -
  let ?env = "load_dotenv (dotenv_file w) (environ w)"
  from producer_creation_reached [OF assms(1)]
  obtain n ev2 where v: "verify_services_says w = None"
    and gi: "get_message_interval (int_says w) ?env = (Inr n, ev2)" by blast
  note m = main_no_producer [OF v gi assms(2), of fuel]
  have ev2: "filter is_create_topic ev2 = [] \<and> filter is_send ev2 = []"
    using get_message_interval_events [of "int_says w" ?env] gi by auto
  from m have "fst (main fuel w) = Raises (SystemExit 3)" by simp
  moreover from this have "fst (run_script fuel w) = Exited 3" by (rule run_script_exit)
  moreover from m ev2 have "filter is_create_topic (snd (main fuel w)) = []"
    by (simp add: startup_calls_def get_kafka_topic_events)
  moreover from m ev2 have "filter is_send (snd (main fuel w)) = []"
    by (simp add: startup_calls_def get_kafka_topic_events)
  moreover from m have "last (snd (main fuel w))
                          = Log ERROR ''Failed to create Kafka producer. Exiting...''"
    by simp
  ultimately show ?thesis by (simp only: run_script_trace simp_thms)
qed

theorem no_producer_exits_with_code_3_witness:
  "CreateKafkaProducer \<in> set (snd (main 5 no_producer_world))
   \<and> create_kafka_producer_says no_producer_world = Inr None
   \<and> run_script 5 no_producer_world =
       (Exited 3,
        [Log INFO ''START producer.'',
         Log INFO ''Loading environment variables from .env file...'',
         LoadDotenv, VerifyServices,
         GetEnv ''KAFKA_TOPIC'', Log INFO ''Kafka topic: buzz_topic'',
         GetEnv ''MESSAGE_INTERVAL_SECONDS'', Log INFO ''Message interval: 10 seconds'',
         CreateKafkaProducer, Log ERROR ''Failed to create Kafka producer. Exiting...''])"
proof -
  have tr: "snd (main 5 no_producer_world) =
       [Log INFO ''START producer.'',
        Log INFO ''Loading environment variables from .env file...'',
        LoadDotenv, VerifyServices,
        GetEnv ''KAFKA_TOPIC'', Log INFO ''Kafka topic: buzz_topic'',
        GetEnv ''MESSAGE_INTERVAL_SECONDS'', Log INFO ''Message interval: 10 seconds'',
        CreateKafkaProducer, Log ERROR ''Failed to create Kafka producer. Exiting...'']"
    by (simp add: main_def no_producer_world_def ok_world_def get_kafka_topic_def
                  get_message_interval_def load_dotenv_def str_int_def str_nat.simps Let_def)
  then have h1: "CreateKafkaProducer \<in> set (snd (main 5 no_producer_world))" by simp
  have h2: "create_kafka_producer_says no_producer_world = Inr None"
    by (simp add: no_producer_world_def)
  from no_producer_exits_with_code_3 [OF h1 h2]
  have "fst (run_script 5 no_producer_world) = Exited 3" by (rule conjunct2 [THEN conjunct1])
  moreover have "snd (run_script 5 no_producer_world) = snd (main 5 no_producer_world)"
    by (rule run_script_trace)
  ultimately have "run_script 5 no_producer_world = (Exited 3, snd (main 5 no_producer_world))"
    by (simp add: prod_eq_iff)
  with tr h1 h2 show ?thesis by simp
qed

text \<open>
  Claim C4. If a producer was obtained and the run reaches \<open>create_kafka_topic(topic)\<close>,
  and that call fails with an \<open>Exception\<close>, \<open>main\<close> logs the failure and calls
  \<open>sys.exit(1)\<close>: the process ends with exit code 1 and \<open>generate_messages\<close> is not
  entered, so nothing is sent, no wait is made and the producer is not closed.
\<close>

theorem topic_failure_exits_with_code_1:
  assumes "create_kafka_producer_says w = Inr (Some p)"
      and "CreateKafkaTopic t \<in> set (snd (main fuel w))"
      and "create_kafka_topic_says w t = Some (Exception cls msg)"
  shows "fst (main fuel w) = Raises (SystemExit 1)
         \<and> fst (run_script fuel w) = Exited 1
         \<and> filter is_send (snd (run_script fuel w)) = []
         \<and> filter is_close (snd (run_script fuel w)) = []
         \<and> last (snd (run_script fuel w))
             = Log ERROR (''Failed to create or verify topic '' @ squote @ t @ squote
                          @ '': '' @ msg)"
proof -
  let ?env = "load_dotenv (dotenv_file w) (environ w)"
  from topic_creation_reached [OF assms(2)]
  obtain n ev2 where t: "t = fst (get_kafka_topic ?env)"
    and v: "verify_services_says w = None"
    and gi: "get_message_interval (int_says w) ?env = (Inr n, ev2)" by blast
  note m = main_topic_fails [OF v gi assms(1) assms(3) [unfolded t], of fuel]
  have ev2: "filter is_send ev2 = [] \<and> filter is_close ev2 = []"
    using get_message_interval_events [of "int_says w" ?env] gi by auto
  from m have "fst (main fuel w) = Raises (SystemExit 1)" by simp
  moreover from this have "fst (run_script fuel w) = Exited 1" by (rule run_script_exit)
  moreover from m ev2 have "filter is_send (snd (main fuel w)) = []"
    by (simp add: startup_calls_def get_kafka_topic_events)
  moreover from m ev2 have "filter is_close (snd (main fuel w)) = []"
    by (simp add: startup_calls_def get_kafka_topic_events)
  moreover from m t have "last (snd (main fuel w))
       = Log ERROR (''Failed to create or verify topic '' @ squote @ t @ squote @ '': '' @ msg)"
    by simp
  ultimately show ?thesis by (simp only: run_script_trace simp_thms)
qed

theorem topic_failure_exits_with_code_1_witness:
  "create_kafka_producer_says topic_fails_world = Inr (Some 0)
   \<and> CreateKafkaTopic ''buzz_topic'' \<in> set (snd (main 5 topic_fails_world))
   \<and> create_kafka_topic_says topic_fails_world ''buzz_topic''
       = Some (Exception ''KafkaError'' ''no brokers'')
   \<and> fst (run_script 5 topic_fails_world) = Exited 1
   \<and> filter is_send (snd (run_script 5 topic_fails_world)) = []"
proof -
  have h1: "create_kafka_producer_says topic_fails_world = Inr (Some 0)"
    by (simp add: topic_fails_world_def ok_world_def)
  have h2: "CreateKafkaTopic ''buzz_topic'' \<in> set (snd (main 5 topic_fails_world))"
    by (simp add: main_def topic_fails_world_def ok_world_def get_kafka_topic_def
                  get_message_interval_def load_dotenv_def Let_def)
  have h3: "create_kafka_topic_says topic_fails_world ''buzz_topic''
              = Some (Exception ''KafkaError'' ''no brokers'')"
    by (simp add: topic_fails_world_def)
  from topic_failure_exits_with_code_1 [OF h1 h2 h3] h1 h2 h3 show ?thesis by blast
qed

text \<open>
  Claim C6. In an environment where neither \<open>KAFKA_TOPIC\<close> nor \<open>MESSAGE_INTERVAL_SECONDS\<close>
  is set, \<open>get_kafka_topic\<close> returns \<open>buzz_topic\<close> and \<open>get_message_interval\<close> returns 10,
  whatever the built-in \<open>int\<close> does on strings.
\<close>

theorem default_configuration:
  assumes "env ''KAFKA_TOPIC'' = None" and "env ''MESSAGE_INTERVAL_SECONDS'' = None"
  shows "fst (get_kafka_topic env) = ''buzz_topic''
         \<and> fst (get_message_interval i env) = Inr 10"
  using assms by (simp add: get_kafka_topic_def get_message_interval_def Let_def)

theorem default_configuration_witness:
  "Map.empty ''KAFKA_TOPIC'' = (None :: string option)
   \<and> Map.empty ''MESSAGE_INTERVAL_SECONDS'' = (None :: string option)
   \<and> fst (get_kafka_topic Map.empty) = ''buzz_topic''
   \<and> fst (get_message_interval ascii_int Map.empty) = Inr 10"
  using default_configuration [of Map.empty ascii_int] by simp

text \<open>
  Claim C7. If \<open>MESSAGE_INTERVAL_SECONDS\<close> is set to a string on which \<open>int\<close> raises its
  \<open>ValueError\<close>, \<open>get_message_interval\<close> raises that error, before its log line. No
  handler of the script takes it: when \<open>verify_services\<close> has returned, \<open>main\<close> raises
  it after reading the variable, before any producer is created, and the process ends
  with a traceback. (When \<open>verify_services\<close> raises, the variable is never read.)
\<close>

theorem malformed_interval_is_not_caught:
  assumes "env ''MESSAGE_INTERVAL_SECONDS'' = Some s" and "int_says w s = Inl msg"
  shows "get_message_interval (int_says w) env =
           (Inl (Exception ''ValueError'' msg), [GetEnv ''MESSAGE_INTERVAL_SECONDS''])
         \<and> (load_dotenv (dotenv_file w) (environ w) = env \<and> verify_services_says w = None \<longrightarrow>
              fst (main fuel w) = Raises (Exception ''ValueError'' msg)
              \<and> fst (run_script fuel w) = Traceback (Exception ''ValueError'' msg)
              \<and> filter is_create_producer (snd (run_script fuel w)) = []
              \<and> last (snd (run_script fuel w)) = GetEnv ''MESSAGE_INTERVAL_SECONDS'')"
proof (intro conjI impI)
  show gi: "get_message_interval (int_says w) env =
              (Inl (Exception ''ValueError'' msg), [GetEnv ''MESSAGE_INTERVAL_SECONDS''])"
    using assms by (simp add: get_message_interval_def call_int_def)
  assume "load_dotenv (dotenv_file w) (environ w) = env \<and> verify_services_says w = None"
  then have env: "load_dotenv (dotenv_file w) (environ w) = env"
    and v: "verify_services_says w = None" by simp_all
  note m = main_interval_fails [OF v gi [folded env], of fuel]
  from m show r: "fst (main fuel w) = Raises (Exception ''ValueError'' msg)" by simp
  from r show "fst (run_script fuel w) = Traceback (Exception ''ValueError'' msg)"
    by (rule run_script_traceback)
  from m show "filter is_create_producer (snd (run_script fuel w)) = []"
    by (simp add: run_script_trace startup_calls_def get_kafka_topic_events)
  from m show "last (snd (run_script fuel w)) = GetEnv ''MESSAGE_INTERVAL_SECONDS''"
    by (simp add: run_script_trace)
qed

lemma ascii_int_abc:
  "ascii_int ''abc'' = Inl (''invalid literal for int() with base 10: '' @ squote @ ''abc'' @ squote)"
  by (simp add: ascii_int_def py_isspace_def py_isdigit_def digit_or_underscore_def
                py_repr_def py_repr_char_def squote_def Let_def)

theorem malformed_interval_is_not_caught_witness:
  "load_dotenv (dotenv_file bad_interval_world) (environ bad_interval_world)
       ''MESSAGE_INTERVAL_SECONDS'' = Some ''abc''
   \<and> int_says bad_interval_world ''abc''
       = Inl (''invalid literal for int() with base 10: '' @ squote @ ''abc'' @ squote)
   \<and> verify_services_says bad_interval_world = None
   \<and> fst (run_script 5 bad_interval_world) = Traceback (Exception ''ValueError''
         (''invalid literal for int() with base 10: '' @ squote @ ''abc'' @ squote))
   \<and> filter is_create_producer (snd (run_script 5 bad_interval_world)) = []"
proof -
  let ?env = "load_dotenv (dotenv_file bad_interval_world) (environ bad_interval_world)"
  have h1: "?env ''MESSAGE_INTERVAL_SECONDS'' = Some ''abc''"
    by (simp add: load_dotenv_def bad_interval_world_def ok_world_def)
  have h2: "int_says bad_interval_world ''abc''
              = Inl (''invalid literal for int() with base 10: '' @ squote @ ''abc'' @ squote)"
    by (simp add: bad_interval_world_def ok_world_def ascii_int_abc)
  have h3: "?env = ?env \<and> verify_services_says bad_interval_world = None"
    by (simp add: bad_interval_world_def ok_world_def)
  from malformed_interval_is_not_caught
         [where env = ?env and s = "''abc''" and w = bad_interval_world and fuel = 5,
          OF h1 h2] h3
  have "fst (run_script 5 bad_interval_world) = Traceback (Exception ''ValueError''
         (''invalid literal for int() with base 10: '' @ squote @ ''abc'' @ squote))
        \<and> filter is_create_producer (snd (run_script 5 bad_interval_world)) = []"
    by blast
  with h1 h2 h3 show ?thesis by blast
qed

lemma main_after_verify:
  assumes "verify_services_says w = None"
  shows "\<exists>rest. snd (main fuel w) =
           startup_calls
           @ snd (get_kafka_topic (load_dotenv (dotenv_file w) (environ w)))
           @ snd (get_message_interval (int_says w) (load_dotenv (dotenv_file w) (environ w)))
           @ rest
         \<and> filter is_getenv rest = []"
proof -
  let ?env = "load_dotenv (dotenv_file w) (environ w)"
  note v = assms
  obtain r ev2 where gi: "get_message_interval (int_says w) ?env = (r, ev2)"
    by (cases "get_message_interval (int_says w) ?env")
  show ?thesis
  proof (cases r)
    case (Inl x)
    from main_interval_fails [OF v gi [unfolded Inl], of fuel] gi show ?thesis by simp
  next
    case (Inr n)
    note gi' = gi [unfolded Inr]
    show ?thesis
    proof (cases "create_kafka_producer_says w")
      case (Inl x)
      from main_producer_raises [OF v gi' Inl, of fuel] gi' show ?thesis by simp
    next
      case (Inr po)
      show ?thesis
      proof (cases po)
        case None
        from main_no_producer [OF v gi' Inr [unfolded None], of fuel] gi' show ?thesis by simp
      next
        case (Some p)
        note pr = Inr [unfolded Some]
        show ?thesis
        proof (cases "create_kafka_topic_says w (fst (get_kafka_topic ?env))")
          case tn: None
          obtain res ev4 where gm: "generate_messages (loop_says w) (close_says w) fuel p
                                      (fst (get_kafka_topic ?env)) n = (res, ev4)"
            by (cases "generate_messages (loop_says w) (close_says w) fuel p
                         (fst (get_kafka_topic ?env)) n")
          have "\<not> is_getenv e" if "e \<in> set ev4" for e
            using generate_messages_events [of e "loop_says w" "close_says w"
                    fuel p "fst (get_kafka_topic ?env)" n] gm that by (cases e) auto
          then have ev4: "filter is_getenv ev4 = []" by (simp add: filter_empty_conv)
          have gk: "get_kafka_topic ?env = (fst (get_kafka_topic ?env), snd (get_kafka_topic ?env))"
            by simp
          from main_runs [OF v gi' pr gk tn gm] gi' ev4 show ?thesis
            by (cases res) simp_all
        next
          case ts: (Some x)
          show ?thesis
          proof (cases "\<exists>cls msg. x = Exception cls msg")
            case True
            then obtain cls msg where x: "x = Exception cls msg" by blast
            from main_topic_fails [OF v gi' pr ts [unfolded x], of fuel] gi' show ?thesis by simp
          next
            case False
            then have nx: "\<forall>cls msg. x \<noteq> Exception cls msg" by blast
            from main_topic_raises [OF v gi' pr ts nx, of fuel] gi' show ?thesis by simp
          qed
        qed
      qed
    qed
  qed
qed

lemma filter_getenv_interval:
  "filter is_getenv (snd (get_message_interval i env)) = [GetEnv ''MESSAGE_INTERVAL_SECONDS'']"
  using get_message_interval_events [of i env] by auto

lemma interval_events_Cons:
  "\<exists>evs. snd (get_message_interval i env) = GetEnv ''MESSAGE_INTERVAL_SECONDS'' # evs"
  using get_message_interval_events [of i env] by auto

text \<open>
  Claim C9, as stated, fails: \<open>main\<close> calls \<open>verify_services()\<close> before it reads the
  topic and the interval. In the run below the first read of a configuration variable is
  call number 4 of the trace and the call of \<open>verify_services\<close> is call number 3.
\<close>

theorem config_before_verification_counterexample:
  "\<not> resolves_config_before_verifying (snd (main 0 no_producer_world))"
  by (simp add: resolves_config_before_verifying_def first_index_def main_def
                no_producer_world_def ok_world_def get_kafka_topic_def
                get_message_interval_def load_dotenv_def Let_def)

text \<open>
  Claim C9, amended. In every run of \<open>main\<close> the call of \<open>verify_services()\<close> is call
  number 3 of the trace (after two log lines and \<open>load_dotenv()\<close>), and no configuration
  variable is read before it. If \<open>verify_services\<close> returns, the next calls are the read
  of \<open>KAFKA_TOPIC\<close>, the log line of the topic and the read of
  \<open>MESSAGE_INTERVAL_SECONDS\<close>, and these are the only reads of the run. If it raises,
  the configuration is never read.
\<close>

theorem verification_precedes_configuration:
  "first_index is_verify (snd (main fuel w)) = 3
   \<and> 3 < first_index is_getenv (snd (main fuel w))
   \<and> (verify_services_says w = None \<longrightarrow>
        first_index is_getenv (snd (main fuel w)) = 4
        \<and> take 7 (snd (main fuel w)) =
            startup_calls
            @ [GetEnv ''KAFKA_TOPIC'',
               Log INFO (''Kafka topic: ''
                         @ fst (get_kafka_topic (load_dotenv (dotenv_file w) (environ w)))),
               GetEnv ''MESSAGE_INTERVAL_SECONDS'']
        \<and> filter is_getenv (snd (main fuel w)) =
            [GetEnv ''KAFKA_TOPIC'', GetEnv ''MESSAGE_INTERVAL_SECONDS''])
   \<and> (verify_services_says w \<noteq> None \<longrightarrow> filter is_getenv (snd (main fuel w)) = [])"
proof (intro conjI impI)
  obtain rest where tr: "snd (main fuel w) = startup_calls @ rest"
    using main_starts by blast
  show "first_index is_verify (snd (main fuel w)) = 3"
    by (simp add: tr first_index_def startup_calls_def)
  show "3 < first_index is_getenv (snd (main fuel w))"
    by (simp add: tr first_index_def startup_calls_def)
next
  assume v: "verify_services_says w = None"
  let ?env = "load_dotenv (dotenv_file w) (environ w)"
  from main_after_verify [OF v, of fuel]
  obtain rest where tr: "snd (main fuel w) =
      startup_calls @ snd (get_kafka_topic ?env)
      @ snd (get_message_interval (int_says w) ?env) @ rest"
    and rest: "filter is_getenv rest = []" by blast
  show "first_index is_getenv (snd (main fuel w)) = 4"
    by (simp add: tr first_index_def startup_calls_def get_kafka_topic_events)
  obtain evs where "snd (get_message_interval (int_says w) ?env)
                      = GetEnv ''MESSAGE_INTERVAL_SECONDS'' # evs"
    using interval_events_Cons by blast
  then show "take 7 (snd (main fuel w)) =
            startup_calls
            @ [GetEnv ''KAFKA_TOPIC'', Log INFO (''Kafka topic: '' @ fst (get_kafka_topic ?env)),
               GetEnv ''MESSAGE_INTERVAL_SECONDS'']"
    by (simp add: tr startup_calls_def get_kafka_topic_events)
  show "filter is_getenv (snd (main fuel w)) =
            [GetEnv ''KAFKA_TOPIC'', GetEnv ''MESSAGE_INTERVAL_SECONDS'']"
    by (simp add: tr rest startup_calls_def get_kafka_topic_events filter_getenv_interval)
next
  assume "verify_services_says w \<noteq> None"
  then obtain x where "verify_services_says w = Some x" by blast
  then show "filter is_getenv (snd (main fuel w)) = []"
    by (simp add: main_verify_fails startup_calls_def)
qed

theorem verification_precedes_configuration_witness:
  "verify_services_says no_producer_world = None
   \<and> first_index is_verify (snd (main 5 no_producer_world)) = 3
   \<and> first_index is_getenv (snd (main 5 no_producer_world)) = 4
   \<and> filter is_getenv (snd (main 5 no_producer_world)) =
       [GetEnv ''KAFKA_TOPIC'', GetEnv ''MESSAGE_INTERVAL_SECONDS'']
   \<and> verify_services_says verify_fails_world \<noteq> None
   \<and> filter is_getenv (snd (main 5 verify_fails_world)) = []"
proof -
  have h1: "verify_services_says no_producer_world = None"
    by (simp add: no_producer_world_def ok_world_def)
  have h2: "verify_services_says verify_fails_world \<noteq> None"
    by (simp add: verify_fails_world_def)
  from verification_precedes_configuration [of 5 no_producer_world]
       verification_precedes_configuration [of 5 verify_fails_world] h1 h2
  show ?thesis by blast
qed

text \<open>
  Claim C10. If \<open>MESSAGE_INTERVAL_SECONDS\<close> is set to a string that \<open>int\<close> reads as a
  negative number, \<open>get_message_interval\<close> returns that number as it is, and logs it.
  Nothing in \<open>main\<close> checks it either: when the run reaches the loop, the first
  iteration calls \<open>time.sleep\<close> with the negative number.
\<close>

theorem negative_interval_is_returned_unchanged:
  assumes "env ''MESSAGE_INTERVAL_SECONDS'' = Some s" and "int_says w s = Inr n" and "n < 0"
  shows "get_message_interval (int_says w) env =
           (Inr n, [GetEnv ''MESSAGE_INTERVAL_SECONDS'',
                    Log INFO (''Message interval: '' @ str_int n @ '' seconds'')])
         \<and> (load_dotenv (dotenv_file w) (environ w) = env
              \<and> verify_services_says w = None
              \<and> create_kafka_producer_says w = Inr (Some p)
              \<and> create_kafka_topic_says w (fst (get_kafka_topic env)) = None
              \<and> (\<forall>c. loop_says w 0 c = None)
              \<longrightarrow> Sleep n \<in> set (snd (main (Suc fuel) w)))"
proof (intro conjI impI)
  show gi: "get_message_interval (int_says w) env =
           (Inr n, [GetEnv ''MESSAGE_INTERVAL_SECONDS'',
                    Log INFO (''Message interval: '' @ str_int n @ '' seconds'')])"
    using assms by (simp add: get_message_interval_def call_int_def)
  assume h: "load_dotenv (dotenv_file w) (environ w) = env
              \<and> verify_services_says w = None
              \<and> create_kafka_producer_says w = Inr (Some p)
              \<and> create_kafka_topic_says w (fst (get_kafka_topic env)) = None
              \<and> (\<forall>c. loop_says w 0 c = None)"
  then have env: "load_dotenv (dotenv_file w) (environ w) = env"
    and v: "verify_services_says w = None"
    and pr: "create_kafka_producer_says w = Inr (Some p)"
    and tp: "create_kafka_topic_says w (fst (get_kafka_topic env)) = None"
    and lw: "\<forall>c. loop_says w 0 c = None" by simp_all
  let ?t = "fst (get_kafka_topic env)"
  let ?msgs = "cycle (Suc fuel) string_list"
  have len: "0 < length ?msgs"
    using string_list_nonempty by (simp add: cycle_Suc)
  have "time_sleep n (loop_says w 0 SleepCall) \<noteq> None"
    using assms(3) by (simp add: time_sleep_def)
  then obtain x where x: "time_sleep n (loop_says w 0 SleepCall) = Some x"
    by blast
  then have c1: "call_says (loop_says w) n (0 + 0) SleepCall = Some x"
    by (simp add: call_says_def)
  have c2: "\<forall>j c'. j < (0::nat) \<longrightarrow> call_says (loop_says w) n (0 + j) c' = None" by simp
  have c3: "\<forall>c'. call_index c' < call_index SleepCall \<longrightarrow>
                 call_says (loop_says w) n (0 + 0) c' = None"
    using lw by (simp add: call_says_def)
  have loop: "for_loop (loop_says w) 0 p ?t n ?msgs =
                (Some x, concat (map (iteration_calls p ?t n) (take 0 ?msgs))
                         @ take (call_index SleepCall) (iteration_calls p ?t n (?msgs ! 0)))"
    using len c1 c2 c3 by (rule for_loop_fails)
  obtain r ev4 where gm: "generate_messages (loop_says w) (close_says w) (Suc fuel) p ?t n = (r, ev4)"
    by (cases "generate_messages (loop_says w) (close_says w) (Suc fuel) p ?t n")
  have "Sleep n \<in> set (snd (generate_messages (loop_says w) (close_says w) (Suc fuel) p ?t n))"
    by (simp add: generate_messages_def generate_messages_on_def while_true_flat loop
                  iteration_calls_def Let_def split: option.splits
             del: while_true.simps)
  with gm have ev4: "Sleep n \<in> set ev4" by simp
  have gk: "get_kafka_topic (load_dotenv (dotenv_file w) (environ w)) = (?t, snd (get_kafka_topic env))"
    by (simp add: env)
  from main_runs [OF v gi [folded env] pr gk tp gm] ev4
  show "Sleep n \<in> set (snd (main (Suc fuel) w))" by simp
qed

lemma ascii_int_minus_5: "ascii_int ''-5'' = Inr (- 5)"
  by (simp add: ascii_int_def py_isspace_def py_isdigit_def digit_or_underscore_def
                digit_val_def Let_def)

theorem negative_interval_is_returned_unchanged_witness:
  "load_dotenv (dotenv_file negative_interval_world) (environ negative_interval_world)
       ''MESSAGE_INTERVAL_SECONDS'' = Some ''-5''
   \<and> int_says negative_interval_world ''-5'' = Inr (- 5) \<and> (- 5 :: int) < 0
   \<and> verify_services_says negative_interval_world = None
   \<and> create_kafka_producer_says negative_interval_world = Inr (Some 0)
   \<and> create_kafka_topic_says negative_interval_world ''buzz_topic'' = None
   \<and> (\<forall>c. loop_says negative_interval_world 0 c = None)
   \<and> fst (get_message_interval (int_says negative_interval_world)
           (load_dotenv (dotenv_file negative_interval_world) (environ negative_interval_world)))
       = Inr (- 5)
   \<and> Sleep (- 5) \<in> set (snd (main (Suc 0) negative_interval_world))"
proof -
  let ?env = "load_dotenv (dotenv_file negative_interval_world) (environ negative_interval_world)"
  have h1: "?env ''MESSAGE_INTERVAL_SECONDS'' = Some ''-5''"
    by (simp add: load_dotenv_def negative_interval_world_def ok_world_def)
  have h2: "int_says negative_interval_world ''-5'' = Inr (- 5)"
    by (simp add: negative_interval_world_def ok_world_def ascii_int_minus_5)
  have h3: "(- 5 :: int) < 0" by simp
  have tpc: "fst (get_kafka_topic ?env) = ''buzz_topic''"
    by (simp add: get_kafka_topic_def load_dotenv_def negative_interval_world_def ok_world_def Let_def)
  have h4: "verify_services_says negative_interval_world = None"
    and h5: "create_kafka_producer_says negative_interval_world = Inr (Some 0)"
    and h6: "create_kafka_topic_says negative_interval_world ''buzz_topic'' = None"
    and h7: "\<forall>c. loop_says negative_interval_world 0 c = None"
    by (simp_all add: negative_interval_world_def ok_world_def quiet_def)
  note inst = negative_interval_is_returned_unchanged
                [where env = ?env and w = negative_interval_world and p = 0 and fuel = 0,
                 OF h1 h2 h3]
  from inst have a: "fst (get_message_interval (int_says negative_interval_world) ?env) = Inr (- 5)"
    by simp
  from inst h4 h5 h6 [folded tpc] h7
  have b: "Sleep (- 5) \<in> set (snd (main (Suc 0) negative_interval_world))" by blast
  from h1 h2 h3 h4 h5 h6 h7 a b show ?thesis by (intro conjI)
qed

end
